theory Spec2Isabelle
  imports Complex_Main "HOL-Library.Char_ord"
begin

section \<open>Python values, exceptions and the builtins the scripts use\<close>

text \<open>
  The scripts handle JSON documents as Python values of type \<open>Dict[str, Any]\<close>. A value is
  \<open>None\<close>, a bool, an int, a str, a list or a dict with string keys (floats do not occur in
  what the functions below inspect). A dict is an association list in insertion order; the
  dicts Python builds have distinct keys.
\<close>

datatype pyval =
    PNone
  | PBool bool
  | PInt int
  | PStr string
  | PList "pyval list"
  | PDict "(string \<times> pyval) list"

type_synonym dict = "(string \<times> pyval) list"

text \<open>
  Exceptions, all of them subclasses of Python's \<open>Exception\<close> (so every \<open>except Exception\<close>
  handler catches each of them). Their messages are only ever logged and are left out.
\<close>

datatype exn =
    KeyError
  | IndexError
  | TypeError
  | AttributeError
  | ValueError
  | TimeoutError
  | CDGCAPIError
  | FileNotFoundError
  | NotADirectoryError
  | OSError
  | OtherException

definition and_then :: "exn + 'a \<Rightarrow> ('a \<Rightarrow> exn + 'b) \<Rightarrow> exn + 'b" where
  "and_then m f = (case m of Inl e \<Rightarrow> Inl e | Inr v \<Rightarrow> f v)"

text \<open>\<open>d.get(k, default)\<close> on a dict.\<close>

definition dict_get :: "dict \<Rightarrow> string \<Rightarrow> pyval \<Rightarrow> pyval" where
  "dict_get d k dflt = (case map_of d k of None \<Rightarrow> dflt | Some v \<Rightarrow> v)"

text \<open>\<open>d[k] = v\<close>: replaces the value of an existing key in place, else appends the key.\<close>

fun dict_set :: "dict \<Rightarrow> string \<Rightarrow> pyval \<Rightarrow> dict" where
  "dict_set [] k v = [(k, v)]"
| "dict_set ((k', v') # d) k v = (if k' = k then (k, v) # d else (k', v') # dict_set d k v)"

text \<open>\<open>del d[k]\<close>, used by the source only under the guard \<open>k in d\<close>.\<close>

definition dict_del :: "dict \<Rightarrow> string \<Rightarrow> dict" where
  "dict_del d k = filter (\<lambda>kv. fst kv \<noteq> k) d"

definition dict_has :: "dict \<Rightarrow> string \<Rightarrow> bool" where
  "dict_has d k = (k \<in> set (map fst d))"

text \<open>\<open>x.get(k, default)\<close> on any value: only a dict has the method.\<close>

definition py_get :: "pyval \<Rightarrow> string \<Rightarrow> pyval \<Rightarrow> exn + pyval" where
  "py_get x k dflt = (case x of PDict d \<Rightarrow> Inr (dict_get d k dflt) | _ \<Rightarrow> Inl AttributeError)"

text \<open>\<open>x[k]\<close> with a string key: a missing key is a KeyError, a non-dict a TypeError.\<close>

definition py_getitem :: "pyval \<Rightarrow> string \<Rightarrow> exn + pyval" where
  "py_getitem x k =
     (case x of
        PDict d \<Rightarrow> (case map_of d k of None \<Rightarrow> Inl KeyError | Some v \<Rightarrow> Inr v)
      | _ \<Rightarrow> Inl TypeError)"

text \<open>Truth value of a Python value, as \<open>if x:\<close> tests it.\<close>

fun truthy :: "pyval \<Rightarrow> bool" where
  "truthy PNone = False"
| "truthy (PBool b) = b"
| "truthy (PInt n) = (n \<noteq> 0)"
| "truthy (PStr s) = (s \<noteq> [])"
| "truthy (PList xs) = (xs \<noteq> [])"
| "truthy (PDict d) = (d \<noteq> [])"

subsection \<open>Strings\<close>

text \<open>
  A \<open>char\<close> stands for the Python character with the same code point, so a \<open>string\<close> is a
  Python str whose code points are below 256. On these, \<open>str.isalnum\<close>, \<open>str.lower\<close> and
  \<open>str.upper\<close> are as follows (Unicode character database). \<open>upper\<close> sends
  U+00DF to the two letters SS; it sends U+00B5 and U+00FF to code points above 255, which
  a \<open>char\<close> cannot hold: the model leaves these two unchanged, which does not affect any
  comparison with a word of ASCII letters.
\<close>

definition isalnum :: "char \<Rightarrow> bool" where
  "isalnum c =
     (let n = (of_char c :: nat) in
        (48 \<le> n \<and> n \<le> 57) \<or> (65 \<le> n \<and> n \<le> 90) \<or> (97 \<le> n \<and> n \<le> 122) \<or>
        n \<in> set [170, 178, 179, 181, 185, 186, 188, 189, 190] \<or>
        (192 \<le> n \<and> n \<le> 214) \<or> (216 \<le> n \<and> n \<le> 246) \<or> (248 \<le> n \<and> n \<le> 255))"

definition lower_char :: "char \<Rightarrow> char" where
  "lower_char c =
     (let n = (of_char c :: nat) in
        if (65 \<le> n \<and> n \<le> 90) \<or> (192 \<le> n \<and> n \<le> 214) \<or> (216 \<le> n \<and> n \<le> 222)
        then char_of (n + 32) else c)"

definition upper_char :: "char \<Rightarrow> string" where
  "upper_char c =
     (let n = (of_char c :: nat) in
        if (97 \<le> n \<and> n \<le> 122) \<or> (224 \<le> n \<and> n \<le> 246) \<or> (248 \<le> n \<and> n \<le> 254)
        then [char_of (n - 32)]
        else if n = 223 then ''SS''
        else [c])"

definition lower :: "string \<Rightarrow> string" where
  "lower s = map lower_char s"

definition upper :: "string \<Rightarrow> string" where
  "upper s = concat (map upper_char s)"

text \<open>\<open>x.lower()\<close> and \<open>x.upper()\<close> on any value: only a str has the methods.\<close>

definition py_lower :: "pyval \<Rightarrow> exn + string" where
  "py_lower x = (case x of PStr s \<Rightarrow> Inr (lower s) | _ \<Rightarrow> Inl AttributeError)"

definition py_upper :: "pyval \<Rightarrow> exn + string" where
  "py_upper x = (case x of PStr s \<Rightarrow> Inr (upper s) | _ \<Rightarrow> Inl AttributeError)"

section \<open>Classification export: file names\<close>

text \<open>
  \<open>create_json_filename\<close> of \<open>mcc_export_classification.py\<close>. The time stamp is what
  \<open>datetime.now().strftime("%Y%m%d_%H%M%S")\<close> returns at the call.
\<close>

definition safe_name :: "string \<Rightarrow> string" where
  "safe_name base_name =
     map (\<lambda>c. if isalnum c \<or> c \<in> set [CHR ''-'', CHR ''_''] then c else CHR ''_'') base_name"

definition create_json_filename :: "string \<Rightarrow> string \<Rightarrow> string" where
  "create_json_filename base_name timestamp =
     safe_name base_name @ ''_'' @ timestamp @ ''.json''"

text \<open>
  The sanitisation as the specification words it: every character outside
  \<open>[A-Za-z0-9_-]\<close> becomes an underscore.
\<close>

definition spec_class :: "char \<Rightarrow> bool" where
  "spec_class c =
     ((CHR ''A'' \<le> c \<and> c \<le> CHR ''Z'') \<or> (CHR ''a'' \<le> c \<and> c \<le> CHR ''z'') \<or>
      (CHR ''0'' \<le> c \<and> c \<le> CHR ''9'') \<or> c = CHR ''_'' \<or> c = CHR ''-'')"

definition spec_sanitize :: "string \<Rightarrow> string" where
  "spec_sanitize s = map (\<lambda>c. if spec_class c then c else CHR ''_'') s"

section \<open>Classification export and import\<close>

subsection \<open>The store and the file system\<close>

text \<open>
  Python passes dicts by reference. The store holds the dicts that exist, a reference is
  an index into it, and a new object takes the next free index.
\<close>

type_synonym ref = nat

type_synonym store = "dict list"

text \<open>The authentication handle; the export reads these two attributes.\<close>

record auth =
  org_name :: pyval
  user_id :: pyval

text \<open>
  The file system as the scripts use it. \<open>makedirs_error\<close> and \<open>open_error\<close> give the
  exception, if any, that \<open>os.makedirs(d, exist_ok=True)\<close> and opening a path for writing
  raise; \<open>file_at\<close> gives what a path holds (\<open>Unreadable\<close>: opening or \<open>json.load\<close>
  raises); \<open>isdir\<close> and \<open>listdir\<close> answer for the import directory.
\<close>

datatype file_state = Missing | Unreadable exn | Content pyval

record filesystem =
  makedirs_error :: "string \<Rightarrow> exn option"
  open_error :: "string \<Rightarrow> exn option"
  file_at :: "string \<Rightarrow> file_state"
  isdir :: "string \<Rightarrow> bool"
  listdir :: "string \<Rightarrow> exn + string list"

text \<open>\<open>os.path.join(a, b)\<close> on POSIX.\<close>

definition os_path_join :: "string \<Rightarrow> string \<Rightarrow> string" where
  "os_path_join a b =
     (if b \<noteq> [] \<and> hd b = CHR ''/'' then b
      else if a = [] \<or> last a = CHR ''/'' then a @ b
      else a @ ''/'' @ b)"

text \<open>\<open>s.endswith(suffix)\<close>.\<close>

definition endswith :: "string \<Rightarrow> string \<Rightarrow> bool" where
  "endswith s suffix = (length suffix \<le> length s \<and> drop (length s - length suffix) s = suffix)"

text \<open>\<open>k in x\<close> for a string \<open>k\<close>: a key of a dict, an element of a list, a substring of a str.\<close>

fun is_substring :: "string \<Rightarrow> string \<Rightarrow> bool" where
  "is_substring k [] = (k = [])"
| "is_substring k (c # s) = (take (length k) (c # s) = k \<or> is_substring k s)"

definition py_contains :: "pyval \<Rightarrow> string \<Rightarrow> exn + bool" where
  "py_contains x k =
     (case x of
        PDict d \<Rightarrow> Inr (dict_has d k)
      | PList xs \<Rightarrow> Inr (PStr k \<in> set xs)
      | PStr s \<Rightarrow> Inr (is_substring k s)
      | _ \<Rightarrow> Inl TypeError)"

subsection \<open>Export: \<open>save_classification_to_file\<close>\<close>

text \<open>
  \<open>now\<close> is \<open>datetime.utcnow().strftime('%a, %d %b %Y %H:%M:%S GMT')\<close> at the call. The
  directory is created first; then the three assignments write into the dict the caller
  passed; then the file is written, and a failure there is logged and raised again.
\<close>

definition save_classification_to_file ::
  "auth \<Rightarrow> string \<Rightarrow> ref \<Rightarrow> string \<Rightarrow> string \<Rightarrow> store \<Rightarrow> filesystem
     \<Rightarrow> (exn + unit) \<times> store \<times> filesystem" where
  "save_classification_to_file a now classification filename output_dir h fs =
     (case makedirs_error fs output_dir of
        Some e \<Rightarrow> (Inl e, h, fs)
      | None \<Rightarrow>
          (let h1 = h[classification := dict_set (h ! classification) ''export_date'' (PStr now)];
               h2 = h1[classification := dict_set (h1 ! classification) ''export_org'' (org_name a)];
               h3 = h2[classification := dict_set (h2 ! classification) ''export_user'' (user_id a)];
               output_path = os_path_join output_dir filename
           in (case open_error fs output_path of
                 Some e \<Rightarrow> (Inl e, h3, fs)
               | None \<Rightarrow>
                   (Inr (), h3,
                    fs\<lparr>file_at := (file_at fs)(output_path := Content (PDict (h3 ! classification)))\<rparr>))))"

subsection \<open>Import: reading and preparing a record\<close>

definition read_classification_file :: "filesystem \<Rightarrow> string \<Rightarrow> exn + pyval" where
  "read_classification_file fs filepath =
     (case file_at fs filepath of
        Missing \<Rightarrow> Inl FileNotFoundError
      | Unreadable e \<Rightarrow> Inl e
      | Content data \<Rightarrow>
          (case py_contains data ''name'' of
             Inl e \<Rightarrow> Inl e
           | Inr b \<Rightarrow> if \<not> b then Inl ValueError else Inr data))"

definition metadata_fields :: "string list" where
  "metadata_fields = [''export_date'', ''export_org'', ''export_user'', ''id'']"

text \<open>The loop \<open>for field in metadata_fields: if field in prepared: del prepared[field]\<close>.\<close>

fun del_fields :: "store \<Rightarrow> ref \<Rightarrow> string list \<Rightarrow> store" where
  "del_fields h prepared [] = h"
| "del_fields h prepared (field # others) =
     del_fields
       (if dict_has (h ! prepared) field then h[prepared := dict_del (h ! prepared) field] else h)
       prepared others"

text \<open>\<open>classification.copy()\<close> makes a new dict with the same items; the loop works on it.\<close>

definition prepare_classification_for_import :: "store \<Rightarrow> ref \<Rightarrow> ref \<times> store" where
  "prepare_classification_for_import h classification =
     (let prepared = length h;
          h1 = h @ [h ! classification]
      in (prepared, del_fields h1 prepared metadata_fields))"

text \<open>The payload that preparing a record with the items \<open>d\<close> returns.\<close>

definition prepared_payload :: "dict \<Rightarrow> dict" where
  "prepared_payload d =
     (case prepare_classification_for_import [d] 0 of (prepared, h) \<Rightarrow> h ! prepared)"

subsection \<open>Import: the reconcile step\<close>

text \<open>
  The remote store is reached through the client's three operations on classifications
  (\<open>get_all_classifications\<close>, \<open>update_classification\<close>, \<open>import_classification\<close>, the
  last one being the remote create). Their code is not part of the scripts: they are
  parameters, acting on a remote world of any type \<open>'w\<close>; each may raise. The state
  records every call made, in order, with its arguments.
\<close>

datatype call =
    GetAll
  | Update pyval dict
  | Create dict

record 'w client =
  get_all_classifications :: "'w \<Rightarrow> (exn + pyval list) \<times> 'w"
  update_classification :: "pyval \<Rightarrow> dict \<Rightarrow> 'w \<Rightarrow> (exn + pyval) \<times> 'w"
  create_classification :: "dict \<Rightarrow> 'w \<Rightarrow> (exn + pyval) \<times> 'w"

record 'w remote =
  world :: 'w
  calls :: "call list"

definition call_get_all :: "'w client \<Rightarrow> 'w remote \<Rightarrow> (exn + pyval list) \<times> 'w remote" where
  "call_get_all client st =
     (case get_all_classifications client (world st) of
        (r, w) \<Rightarrow> (r, st\<lparr>world := w, calls := calls st @ [GetAll]\<rparr>))"

definition call_update ::
  "'w client \<Rightarrow> pyval \<Rightarrow> dict \<Rightarrow> 'w remote \<Rightarrow> (exn + pyval) \<times> 'w remote" where
  "call_update client cid payload st =
     (case update_classification client cid payload (world st) of
        (r, w) \<Rightarrow> (r, st\<lparr>world := w, calls := calls st @ [Update cid payload]\<rparr>))"

definition call_create :: "'w client \<Rightarrow> dict \<Rightarrow> 'w remote \<Rightarrow> (exn + pyval) \<times> 'w remote" where
  "call_create client payload st =
     (case create_classification client payload (world st) of
        (r, w) \<Rightarrow> (r, st\<lparr>world := w, calls := calls st @ [Create payload]\<rparr>))"

text \<open>The scan of \<open>classification_exists\<close>: the first record whose name matches, else \<open>None\<close>.\<close>

fun find_classification :: "pyval list \<Rightarrow> pyval \<Rightarrow> exn + pyval" where
  "find_classification [] classification_name = Inr PNone"
| "find_classification (c # cs) classification_name =
     and_then (py_get c ''name'' (PStr [])) (\<lambda>n.
     and_then (py_lower n) (\<lambda>l.
     and_then (py_lower classification_name) (\<lambda>r.
       if l = r then Inr c else find_classification cs classification_name)))"

text \<open>An exception of the fetch or of the scan is logged and raised again.\<close>

definition classification_exists ::
  "'w client \<Rightarrow> pyval \<Rightarrow> 'w remote \<Rightarrow> (exn + pyval) \<times> 'w remote" where
  "classification_exists client classification_name st =
     (case call_get_all client st of
        (Inl e, st1) \<Rightarrow> (Inl e, st1)
      | (Inr classifications, st1) \<Rightarrow> (find_classification classifications classification_name, st1))"

text \<open>
  \<open>import_classification\<close>. Reading the name lies before the \<open>try\<close>: on a value that is
  not a dict, \<open>classification.get\<close> raises and the exception leaves the function. Every
  exception after it is caught and logged. The function has no \<open>return\<close> statement: it
  returns \<open>None\<close> on every path.
\<close>

definition import_classification ::
  "'w client \<Rightarrow> pyval \<Rightarrow> bool \<Rightarrow> 'w remote \<Rightarrow> (exn + pyval) \<times> 'w remote" where
  "import_classification client classification update_if_exists st =
     (case classification of
        PDict d \<Rightarrow>
          (let classification_name = dict_get d ''name'' (PStr ''Unknown'');
               prepared = prepared_payload d
           in (case classification_exists client classification_name st of
                 (Inl e, st1) \<Rightarrow> (Inr PNone, st1)
               | (Inr existing, st1) \<Rightarrow>
                   if truthy existing then
                     (if update_if_exists then
                        (case py_get existing ''id'' PNone of
                           Inl e \<Rightarrow> (Inr PNone, st1)
                         | Inr cid \<Rightarrow>
                             (case call_update client cid prepared st1 of
                                (r, st2) \<Rightarrow> (Inr PNone, st2)))
                      else (Inr PNone, st1))
                   else
                     (case call_create client prepared st1 of
                        (r, st2) \<Rightarrow> (Inr PNone, st2))))
      | _ \<Rightarrow> (Inl AttributeError, st))"

definition import_classification_from_file ::
  "'w client \<Rightarrow> filesystem \<Rightarrow> string \<Rightarrow> bool \<Rightarrow> 'w remote \<Rightarrow> (exn + pyval) \<times> 'w remote" where
  "import_classification_from_file client fs filepath update_if_exists st =
     (case read_classification_file fs filepath of
        Inl e \<Rightarrow> (Inl e, st)
      | Inr classification \<Rightarrow>
          (case import_classification client classification update_if_exists st of
             (Inl e, st1) \<Rightarrow> (Inl e, st1)
           | (Inr r, st1) \<Rightarrow> (Inr PNone, st1)))"

subsection \<open>Import: the batch\<close>

text \<open>
  The loop of \<open>import_all_from_directory\<close>: each file is imported inside its own
  \<open>try\<close>, whose handler only logs.
\<close>

fun import_files ::
  "'w client \<Rightarrow> filesystem \<Rightarrow> string \<Rightarrow> bool \<Rightarrow> string list \<Rightarrow> 'w remote \<Rightarrow> 'w remote" where
  "import_files client fs directory update_if_exists [] st = st"
| "import_files client fs directory update_if_exists (filename # filenames) st =
     (case import_classification_from_file client fs (os_path_join directory filename)
             update_if_exists st of
        (Inl e, st1) \<Rightarrow> import_files client fs directory update_if_exists filenames st1
      | (Inr r, st1) \<Rightarrow> import_files client fs directory update_if_exists filenames st1)"

definition import_all_from_directory ::
  "'w client \<Rightarrow> filesystem \<Rightarrow> string \<Rightarrow> bool \<Rightarrow> 'w remote \<Rightarrow> (exn + pyval) \<times> 'w remote" where
  "import_all_from_directory client fs directory update_if_exists st =
     (if \<not> isdir fs directory then (Inl NotADirectoryError, st)
      else
        (case listdir fs directory of
           Inl e \<Rightarrow> (Inl e, st)
         | Inr names \<Rightarrow>
             (let json_files = filter (\<lambda>f. endswith f ''.json'') names in
                if json_files = [] then (Inr (PList []), st)
                else (Inr PNone, import_files client fs directory update_if_exists json_files st))))"

text \<open>
  The result the specification gives the batch: the four counts
  \<open>{created, updated, skipped, failed}\<close>.
\<close>

definition is_counts :: "pyval \<Rightarrow> bool" where
  "is_counts r =
     (case r of
        PDict d \<Rightarrow>
          list_all (\<lambda>k. case map_of d k of Some (PInt n) \<Rightarrow> True | _ \<Rightarrow> False)
            [''created'', ''updated'', ''skipped'', ''failed'']
      | _ \<Rightarrow> False)"

section \<open>Catalog source scan: resolve, launch, monitor\<close>

subsection \<open>More builtins\<close>










subsection \<open>Resolve: \<open>search_catalog_source\<close>\<close>






subsection \<open>Launch: \<open>execute_catalog_source\<close>\<close>

text \<open>
  \<open>run_catalog_source_job\<close> stands for the client's call: it gives the response or the
  exception raised. The capabilities are a list of strings, or absent. The two reads
  of the catalog source lie before the \<open>try\<close>; inside it, both handlers
  (\<open>CDGCAPIError\<close>, whose handler only inspects the message for logging, and
  \<open>Exception\<close>) return \<open>(False, None)\<close>.
\<close>

definition launch_body ::
  "(pyval \<Rightarrow> string list option \<Rightarrow> exn + pyval) \<Rightarrow> pyval \<Rightarrow> pyval \<Rightarrow> string list option
     \<Rightarrow> exn + bool \<times> pyval" where
  "launch_body run_catalog_source_job catalog_source_id catalog_source_name capabilities =
     and_then (run_catalog_source_job catalog_source_id capabilities) (\<lambda>result.
     and_then (py_get result ''jobId'' PNone) (\<lambda>job_id.
     and_then (py_get result ''jobUri'' PNone) (\<lambda>u.
     and_then (if truthy u then Inr u else py_get result ''trackingURI'' PNone) (\<lambda>job_uri.
       if truthy job_id then
         Inr (True, PDict [(''jobId'', job_id), (''jobUri'', job_uri),
                           (''catalogSourceName'', catalog_source_name),
                           (''catalogSourceId'', catalog_source_id)])
       else Inr (False, PNone)))))"

definition execute_catalog_source ::
  "(pyval \<Rightarrow> string list option \<Rightarrow> exn + pyval) \<Rightarrow> pyval \<Rightarrow> string list option
     \<Rightarrow> exn + bool \<times> pyval" where
  "execute_catalog_source run_catalog_source_job catalogSource capabilities =
     and_then (py_getitem catalogSource ''systemAttributes'') (\<lambda>attrs.
     and_then (py_get attrs ''core.origin'' PNone) (\<lambda>catalog_source_id.
     and_then (py_getitem catalogSource ''summary'') (\<lambda>summary.
     and_then (py_get summary ''core.name'' PNone) (\<lambda>catalog_source_name.
       (case launch_body run_catalog_source_job catalog_source_id catalog_source_name
               capabilities of
          Inl e \<Rightarrow> Inr (False, PNone)
        | Inr r \<Rightarrow> Inr r)))))"

subsection \<open>Monitor: \<open>monitor_job\<close>\<close>

text \<open>
  The monitor runs against a clock and a remote job service. \<open>clock\<close> is what
  \<open>time.time()\<close> returns now; \<open>responses\<close> are the outcomes of the status fetches still to
  come, each with the time the fetch takes; \<open>fetched\<close> records every fetch issued: the
  clock reading when it was issued and the job id asked for. Time passes in fetches and
  in sleeps. A run that needs more responses than are listed has no result in the model
  (\<open>None\<close>).
\<close>

record job_world =
  clock :: real
  responses :: "(real \<times> (exn + pyval)) list"
  fetched :: "(real \<times> pyval) list"

definition time_time :: "job_world \<Rightarrow> real" where
  "time_time w = clock w"

text \<open>\<open>time.sleep(d)\<close> raises a ValueError on a negative \<open>d\<close>.\<close>

definition time_sleep :: "real \<Rightarrow> job_world \<Rightarrow> exn + job_world" where
  "time_sleep d w = (if d < 0 then Inl ValueError else Inr (w\<lparr>clock := clock w + d\<rparr>))"

definition get_job_status :: "pyval \<Rightarrow> job_world \<Rightarrow> ((exn + pyval) \<times> job_world) option" where
  "get_job_status job_id w =
     (case responses w of
        [] \<Rightarrow> None
      | (latency, r) # rest \<Rightarrow>
          Some (r, w\<lparr>clock := clock w + latency, responses := rest,
                     fetched := fetched w @ [(clock w, job_id)]\<rparr>))"

text \<open>\<open>status.get("status", "").upper()\<close>.\<close>

definition job_state_of :: "pyval \<Rightarrow> exn + string" where
  "job_state_of status = and_then (py_get status ''status'' (PStr [])) py_upper"

text \<open>
  The \<open>while True\<close> loop. Its \<open>raise\<close> statements give \<open>Inl\<close>; the handlers are in
  \<open>monitor_job\<close>.
\<close>

function monitor_loop ::
  "pyval \<Rightarrow> real \<Rightarrow> real \<Rightarrow> real \<Rightarrow> job_world \<Rightarrow> ((exn + bool \<times> pyval) \<times> job_world) option" where
  "monitor_loop job_id poll_interval timeout start_time w =
     (if time_time w - start_time > timeout then Some (Inl TimeoutError, w)
      else
        (case get_job_status job_id w of
           None \<Rightarrow> None
         | Some (Inl e, w1) \<Rightarrow> Some (Inl e, w1)
         | Some (Inr status, w1) \<Rightarrow>
             (case job_state_of status of
                Inl e \<Rightarrow> Some (Inl e, w1)
              | Inr job_state \<Rightarrow>
                  if job_state \<in> set [''COMPLETED'', ''SUCCESS'', ''SUCCESSFUL'']
                  then Some (Inr (True, status), w1)
                  else if job_state \<in> set [''PARTIAL_COMPLETED'']
                  then Some (Inr (True, status), w1)
                  else if job_state \<in> set [''FAILED'', ''ERROR'', ''CANCELLED'']
                  then Some (Inl CDGCAPIError, w1)
                  else
                    (case time_sleep poll_interval w1 of
                       Inl e \<Rightarrow> Some (Inl e, w1)
                     | Inr w2 \<Rightarrow> monitor_loop job_id poll_interval timeout start_time w2))))"
  by pat_completeness auto
termination
  by (relation "measure (\<lambda>(job_id, poll_interval, timeout, start_time, w). length (responses w))")
    (auto simp: get_job_status_def time_sleep_def split: list.splits if_splits)

declare monitor_loop.simps [simp del]

text \<open>
  \<open>monitor_job\<close>. Reading the job id lies before the \<open>try\<close>. The three handlers
  (\<open>TimeoutError\<close>, \<open>CDGCAPIError\<close>, \<open>Exception\<close>) each log and return \<open>(False, None)\<close>.
\<close>

definition monitor_job ::
  "pyval \<Rightarrow> real \<Rightarrow> real \<Rightarrow> job_world \<Rightarrow> ((exn + bool \<times> pyval) \<times> job_world) option" where
  "monitor_job job_info poll_interval timeout w =
     (case py_getitem job_info ''jobId'' of
        Inl e \<Rightarrow> Some (Inl e, w)
      | Inr job_id \<Rightarrow>
          (case py_get job_info ''catalogSourceName'' (PStr ''Unknown'') of
             Inl e \<Rightarrow> Some (Inl e, w)
           | Inr catalog_source_name \<Rightarrow>
               (let start_time = time_time w in
                  (case monitor_loop job_id poll_interval timeout start_time w of
                     None \<Rightarrow> None
                   | Some (Inl e, w1) \<Rightarrow> Some (Inr (False, PNone), w1)
                   | Some (Inr r, w1) \<Rightarrow> Some (Inr r, w1)))))"

section \<open>Notions used to state the theorems\<close>

subsection \<open>The reconcile step\<close>

text \<open>
  A remote record: a dict with at least one item whose name, when it has one, is a
  string. \<open>name_matches n c\<close>: the record \<open>c\<close> has the name \<open>n\<close> up to case, an absent name
  counting as the empty string, as in the scan. \<open>remote_id\<close>: the record's \<open>id\<close>, or \<open>None\<close>.
\<close>

definition remote_record :: "pyval \<Rightarrow> bool" where
  "remote_record c =
     (case c of
        PDict d \<Rightarrow> d \<noteq> [] \<and> (case dict_get d ''name'' (PStr []) of PStr s \<Rightarrow> True | _ \<Rightarrow> False)
      | _ \<Rightarrow> False)"

definition name_matches :: "string \<Rightarrow> pyval \<Rightarrow> bool" where
  "name_matches n c =
     (case c of PDict d \<Rightarrow> (case dict_get d ''name'' (PStr []) of PStr s \<Rightarrow> lower s = lower n | _ \<Rightarrow> False)
      | _ \<Rightarrow> False)"

definition remote_id :: "pyval \<Rightarrow> pyval" where
  "remote_id e = (case e of PDict d \<Rightarrow> dict_get d ''id'' PNone | _ \<Rightarrow> PNone)"

subsection \<open>Resolve\<close>






subsection \<open>Monitor\<close>

text \<open>
  The three groups of remote states after normalisation: a status is running when its
  state is a string outside the terminal words (an absent state counts as the empty
  string, as in the code). A running poll is a fetch that returns a running status.
  For a run of running polls starting at clock reading \<open>t\<close> with poll interval \<open>p\<close>,
  \<open>check_times\<close> lists the clock readings at the top of the iterations that fetch
  them, \<open>clock_after\<close> is the reading at the top of the next iteration, and
  \<open>after_running\<close> is the world then. \<open>after_fetch\<close> is the world after one fetch.
\<close>

definition running_status :: "pyval \<Rightarrow> bool" where
  "running_status status =
     (case job_state_of status of
        Inr s \<Rightarrow> s \<notin> set [''COMPLETED'', ''SUCCESS'', ''SUCCESSFUL'', ''PARTIAL_COMPLETED'',
                          ''FAILED'', ''ERROR'', ''CANCELLED'']
      | Inl e \<Rightarrow> False)"

definition succeeded_status :: "pyval \<Rightarrow> bool" where
  "succeeded_status status =
     (case job_state_of status of
        Inr s \<Rightarrow> s \<in> set [''COMPLETED'', ''SUCCESS'', ''SUCCESSFUL'', ''PARTIAL_COMPLETED'']
      | Inl e \<Rightarrow> False)"

definition failed_status :: "pyval \<Rightarrow> bool" where
  "failed_status status =
     (case job_state_of status of
        Inr s \<Rightarrow> s \<in> set [''FAILED'', ''ERROR'', ''CANCELLED'']
      | Inl e \<Rightarrow> False)"

definition running_poll :: "real \<times> (exn + pyval) \<Rightarrow> bool" where
  "running_poll x = (case snd x of Inr status \<Rightarrow> running_status status | Inl e \<Rightarrow> False)"

fun check_times :: "real \<Rightarrow> real \<Rightarrow> (real \<times> (exn + pyval)) list \<Rightarrow> real list" where
  "check_times p t [] = []"
| "check_times p t (x # xs) = t # check_times p (t + fst x + p) xs"

fun clock_after :: "real \<Rightarrow> real \<Rightarrow> (real \<times> (exn + pyval)) list \<Rightarrow> real" where
  "clock_after p t [] = t"
| "clock_after p t (x # xs) = clock_after p (t + fst x + p) xs"

definition after_running :: "pyval \<Rightarrow> real \<Rightarrow> (real \<times> (exn + pyval)) list \<Rightarrow> job_world \<Rightarrow> job_world" where
  "after_running job_id p pre w =
     w\<lparr>clock := clock_after p (clock w) pre,
       responses := drop (length pre) (responses w),
       fetched := fetched w @ map (\<lambda>t. (t, job_id)) (check_times p (clock w) pre)\<rparr>"

definition after_fetch :: "pyval \<Rightarrow> real \<Rightarrow> job_world \<Rightarrow> job_world" where
  "after_fetch job_id latency w =
     w\<lparr>clock := clock w + latency, responses := tl (responses w),
       fetched := fetched w @ [(clock w, job_id)]\<rparr>"

section \<open>Example inputs\<close>

definition example_auth :: auth where
  "example_auth = \<lparr>org_name = PStr ''acme'', user_id = PStr ''jdoe''\<rparr>"

definition example_record :: dict where
  "example_record = [(''id'', PStr ''c-17''), (''name'', PStr ''PII''), (''rules'', PList [])]"

definition example_fs :: filesystem where
  "example_fs =
     \<lparr>makedirs_error = (\<lambda>d. if d = ''/readonly'' then Some OSError else None),
      open_error = (\<lambda>p. None),
      file_at = (\<lambda>p. if p = ''in/a.json'' then Content (PDict example_record)
                      else if p = ''in/b.json'' then Unreadable ValueError
                      else Missing),
      isdir = (\<lambda>d. d = ''in''),
      listdir = (\<lambda>d. if d = ''in'' then Inr [''b.json'', ''notes.txt'', ''a.json'']
                      else Inl OSError)\<rparr>"

text \<open>
  A client for the examples: the remote world is the list of records; an update leaves
  it as it is, a create appends the payload.
\<close>

definition example_client :: "(pyval list) client" where
  "example_client =
     \<lparr>get_all_classifications = (\<lambda>w. (Inr w, w)),
      update_classification = (\<lambda>cid payload w. (Inr (PDict payload), w)),
      create_classification = (\<lambda>payload w. (Inr (PDict payload), w @ [PDict payload]))\<rparr>"

definition example_remote :: "pyval list" where
  "example_remote =
     [PDict [(''id'', PStr ''r-1''), (''name'', PStr ''Email'')],
      PDict [(''id'', PStr ''r-2''), (''name'', PStr ''pii'')],
      PDict [(''id'', PStr ''r-3''), (''name'', PStr ''PII'')]]"

text \<open>
  A search that knows three catalog sources for "Sales DB", and a job service that
  starts a job for the second, answers without a job id for the third, and fails
  otherwise.
\<close>

definition example_asset :: "string \<Rightarrow> string \<Rightarrow> pyval" where
  "example_asset origin n =
     PDict [(''systemAttributes'', PDict [(''core.origin'', PStr origin)]),
            (''summary'', PDict [(''core.name'', PStr n)])]"



definition example_run :: "pyval \<Rightarrow> string list option \<Rightarrow> exn + pyval" where
  "example_run sid caps =
     (if sid = PStr ''o-2'' then
        Inr (PDict [(''jobId'', PStr ''job-42''), (''trackingURI'', PStr ''/jobs/job-42'')])
      else if sid = PStr ''o-3'' then Inr (PDict [(''accepted'', PBool True)])
      else Inl CDGCAPIError)"

text \<open>
  A job that reports running twice, then completed; the clock starts at 1000 and every
  fetch takes 2 seconds.
\<close>

definition example_job_info :: pyval where
  "example_job_info =
     PDict [(''jobId'', PStr ''job-42''), (''jobUri'', PStr ''/jobs/job-42''),
            (''catalogSourceName'', PStr ''sales db''), (''catalogSourceId'', PStr ''o-2'')]"

definition example_status :: "string \<Rightarrow> pyval" where
  "example_status s = PDict [(''status'', PStr s)]"

definition example_job_world :: job_world where
  "example_job_world =
     \<lparr>clock = 1000,
      responses = [(2, Inr (example_status ''running'')), (2, Inr (example_status ''Running'')),
                   (2, Inr (example_status ''completed'')), (2, Inr (example_status ''cancelled''))],
      fetched = []\<rparr>"

section \<open>Evaluation of characters\<close>

lemma char_of_eval:
  "char_of (n::nat) =
     Char (odd n) (odd (n div 2)) (odd (n div 4)) (odd (n div 8))
          (odd (n div 16)) (odd (n div 32)) (odd (n div 64)) (odd (n div 128))"
  by (simp add: char_of_def bit_iff_odd)

section \<open>File names: theorems\<close>

lemma char_is_hyphen: "c = CHR ''-'' \<longleftrightarrow> (of_char c :: nat) = 45"
proof -
  have "(of_char (CHR ''-'') :: nat) = 45" by simp
  then show ?thesis by (metis of_char_eq_iff)
qed

lemma char_is_underscore: "c = CHR ''_'' \<longleftrightarrow> (of_char c :: nat) = 95"
proof -
  have "(of_char (CHR ''_'') :: nat) = 95" by simp
  then show ?thesis by (metis of_char_eq_iff)
qed

lemma ascii_keep_iff:
  assumes "(of_char c :: nat) < 128"
  shows "(isalnum c \<or> c \<in> set [CHR ''-'', CHR ''_'']) = spec_class c"
proof -
  define n where "n = (of_char c :: nat)"
  have "n < 128" using assms n_def by simp
  then have "((48 \<le> n \<and> n \<le> 57) \<or> (65 \<le> n \<and> n \<le> 90) \<or> (97 \<le> n \<and> n \<le> 122) \<or>
        n \<in> set [170, 178, 179, 181, 185, 186, 188, 189, 190] \<or>
        (192 \<le> n \<and> n \<le> 214) \<or> (216 \<le> n \<and> n \<le> 246) \<or> (248 \<le> n \<and> n \<le> 255) \<or> n = 45 \<or> n = 95)
     = ((65 \<le> n \<and> n \<le> 90) \<or> (97 \<le> n \<and> n \<le> 122) \<or> (48 \<le> n \<and> n \<le> 57) \<or> n = 95 \<or> n = 45)"
    by auto
  then show ?thesis
    unfolding isalnum_def spec_class_def less_eq_char_def Let_def n_def [symmetric]
    by (simp add: char_is_hyphen char_is_underscore n_def [symmetric])
qed


text \<open>
  Claim C9, as stated, fails: a letter beyond ASCII, here U+00E9 in "caf\'e", is
  alphanumeric for \<open>str.isalnum\<close> and is kept, although it lies outside \<open>[A-Za-z0-9_-]\<close>.
\<close>

theorem C9_counterexample:
  "create_json_filename [CHR ''c'', CHR ''a'', CHR ''f'', CHR 0xE9] ''20240101_120000''
     = [CHR ''c'', CHR ''a'', CHR ''f'', CHR 0xE9] @ ''_20240101_120000.json''
   \<and> spec_sanitize [CHR ''c'', CHR ''a'', CHR ''f'', CHR 0xE9] = ''caf_''
   \<and> \<not> spec_class (CHR 0xE9)"
  by (simp add: create_json_filename_def safe_name_def isalnum_def spec_sanitize_def
      spec_class_def less_eq_char_def)

text \<open>
  Claim C9, amended: the sanitisation keeps every character that \<open>str.isalnum\<close> accepts
  (which includes letters and digits beyond ASCII) and the characters \<open>-\<close> and \<open>_\<close>, and
  replaces every other character by \<open>_\<close>, position by position; on a base name of ASCII
  characters this replaces exactly the characters outside \<open>[A-Za-z0-9_-]\<close>; and the base name
  "My Source #1" gives \<open>My_Source__1_{timestamp}.json\<close>.
\<close>

theorem C9_sanitize:
  "length (safe_name s) = length s
   \<and> (\<forall>i < length s. safe_name s ! i =
        (if isalnum (s ! i) \<or> s ! i = CHR ''-'' \<or> s ! i = CHR ''_'' then s ! i else CHR ''_''))
   \<and> ((\<forall>c \<in> set s. (of_char c :: nat) < 128) \<longrightarrow> safe_name s = spec_sanitize s)
   \<and> create_json_filename ''My Source #1'' ts = ''My_Source__1_'' @ ts @ ''.json''"
proof -
  have a: "length (safe_name s) = length s"
    by (simp add: safe_name_def)
  have b: "\<forall>i < length s. safe_name s ! i =
        (if isalnum (s ! i) \<or> s ! i = CHR ''-'' \<or> s ! i = CHR ''_'' then s ! i else CHR ''_'')"
    by (simp add: safe_name_def)
  have c: "(\<forall>c \<in> set s. (of_char c :: nat) < 128) \<longrightarrow> safe_name s = spec_sanitize s"
    unfolding safe_name_def spec_sanitize_def
    by (auto simp only: map_eq_conv ascii_keep_iff)
  have d: "create_json_filename ''My Source #1'' ts = ''My_Source__1_'' @ ts @ ''.json''"
    by (simp add: create_json_filename_def safe_name_def isalnum_def)
  from a b c d show ?thesis by blast
qed

theorem C9_sanitize_witness:
  "safe_name ''a b'' = spec_sanitize ''a b''
   \<and> spec_sanitize ''a b'' = ''a_b''
   \<and> (1::nat) < length ''a b''
   \<and> safe_name ''a b'' ! 1 = CHR ''_''"
  using C9_sanitize [of "''a b''" "[]"]
  by (simp add: isalnum_def spec_sanitize_def spec_class_def less_eq_char_def)

section \<open>Export and import of a record: theorems\<close>

lemma filter_no_key: "\<not> dict_has d k \<Longrightarrow> filter (\<lambda>kv. fst kv \<noteq> k) d = d"
  by (induction d) (auto simp: dict_has_def)

lemma dict_del_filter: "(if dict_has d k then dict_del d k else d) = filter (\<lambda>kv. fst kv \<noteq> k) d"
  by (simp add: dict_del_def filter_no_key)

lemma del_fields_length: "length (del_fields h p ks) = length h"
  by (induction ks arbitrary: h) auto

lemma del_fields_other: "a \<noteq> p \<Longrightarrow> del_fields h p ks ! a = h ! a"
  by (induction ks arbitrary: h) auto

lemma del_fields_at:
  "p < length h \<Longrightarrow> del_fields h p ks ! p = filter (\<lambda>kv. fst kv \<notin> set ks) (h ! p)"
proof (induction ks arbitrary: h)
  case Nil
  then show ?case by simp
next
  case (Cons k ks)
  let ?h = "if dict_has (h ! p) k then h[p := dict_del (h ! p) k] else h"
  have len: "p < length ?h" using Cons.prems by simp
  have at: "?h ! p = filter (\<lambda>kv. fst kv \<noteq> k) (h ! p)"
    using Cons.prems by (simp add: dict_del_def filter_no_key)
  have "del_fields h p (k # ks) ! p = del_fields ?h p ks ! p" by simp
  also have "\<dots> = filter (\<lambda>kv. fst kv \<notin> set ks) (?h ! p)" using Cons.IH [OF len] .
  also have "\<dots> = filter (\<lambda>kv. fst kv \<notin> set (k # ks)) (h ! p)"
    unfolding at by (auto intro: filter_cong)
  finally show ?case .
qed

lemma prepared_payload_filter:
  "prepared_payload d = filter (\<lambda>kv. fst kv \<notin> set metadata_fields) d"
  by (simp add: prepared_payload_def prepare_classification_for_import_def Let_def del_fields_at)

lemma map_of_filter_keys:
  "map_of (filter (\<lambda>kv. fst kv \<notin> S) d) k = (if k \<in> S then None else map_of d k)"
  by (induction d) auto

lemma filter_dict_set:
  "k \<in> S \<Longrightarrow> filter (\<lambda>kv. fst kv \<notin> S) (dict_set d k v) = filter (\<lambda>kv. fst kv \<notin> S) d"
  by (induction d) auto

lemma map_of_dict_set: "map_of (dict_set d k v) k' = (if k' = k then Some v else map_of d k')"
  by (induction d) auto

lemma dict_has_map_of: "dict_has d k = (map_of d k \<noteq> None)"
  by (simp add: dict_has_def map_of_eq_None_iff)

lemma filter_all_keep: "list_all (\<lambda>k. \<not> dict_has d k) ks \<Longrightarrow> filter (\<lambda>kv. fst kv \<notin> set ks) d = d"
  by (induction d) (auto simp: dict_has_def list_all_iff)


lemma save_result_cases:
  assumes "save_classification_to_file a now c filename output_dir h fs = (r, h', fs')"
    and "makedirs_error fs output_dir = None"
    and "c < length h"
  shows "h' = h[c := dict_set (dict_set (dict_set (h ! c) ''export_date'' (PStr now))
                  ''export_org'' (org_name a)) ''export_user'' (user_id a)]"
  using assms
  by (auto simp: save_classification_to_file_def Let_def split: option.splits)

lemma save_ok_file:
  assumes "save_classification_to_file a now c filename output_dir h fs = (Inr (), h', fs')"
  shows "makedirs_error fs output_dir = None
         \<and> file_at fs' (os_path_join output_dir filename) = Content (PDict (h' ! c))"
  using assms
  by (auto simp: save_classification_to_file_def Let_def split: option.splits)

lemma prepared_payload_export:
  "prepared_payload (dict_set (dict_set (dict_set d ''export_date'' x) ''export_org'' y)
       ''export_user'' z) = prepared_payload d"
proof -
  have k: "''export_date'' \<in> set metadata_fields" "''export_org'' \<in> set metadata_fields"
    "''export_user'' \<in> set metadata_fields"
    by (simp_all add: metadata_fields_def)
  show ?thesis
    unfolding prepared_payload_filter
    by (simp only: filter_dict_set [OF k(1)] filter_dict_set [OF k(2)] filter_dict_set [OF k(3)])
qed

lemma del_fields_append_other:
  "x < length h \<Longrightarrow> del_fields (h @ [d]) (length h) ks ! x = h ! x"
  by (simp add: del_fields_other nth_append)

text \<open>
  Claim C7: for every record, preparing it for import removes exactly the four fields
  \<open>export_date\<close>, \<open>export_org\<close>, \<open>export_user\<close> and \<open>id\<close> (those of them that are present)
  and leaves every other field as it is, in the same order. So the document that an
  export writes to its file, once prepared, is the record it was exported from without
  those four fields: it equals the record before the export when that record had none
  of them, and it equals the payload \<open>p\<close> when the exported record was \<open>p\<close> with an
  \<open>id\<close> added.
\<close>

theorem C7_prepare_roundtrip:
  "prepared_payload d = filter (\<lambda>kv. fst kv \<notin> set metadata_fields) d
   \<and> map_of (prepared_payload d) k = (if k \<in> set metadata_fields then None else map_of d k)
   \<and> (c < length h
        \<and> save_classification_to_file a now c filename output_dir h fs = (Inr (), h', fs')
      \<longrightarrow> file_at fs' (os_path_join output_dir filename) = Content (PDict (h' ! c))
          \<and> prepared_payload (h' ! c) = filter (\<lambda>kv. fst kv \<notin> set metadata_fields) (h ! c)
          \<and> (list_all (\<lambda>k. \<not> dict_has (h ! c) k) metadata_fields
               \<longrightarrow> prepared_payload (h' ! c) = h ! c)
          \<and> (list_all (\<lambda>k. \<not> dict_has p k) metadata_fields \<and> h ! c = dict_set p ''id'' v
               \<longrightarrow> prepared_payload (h' ! c) = p))"
proof -
  have 1: "prepared_payload d = filter (\<lambda>kv. fst kv \<notin> set metadata_fields) d"
    by (rule prepared_payload_filter)
  have 2: "map_of (prepared_payload d) k = (if k \<in> set metadata_fields then None else map_of d k)"
    by (simp only: prepared_payload_filter map_of_filter_keys)
  have 3: "file_at fs' (os_path_join output_dir filename) = Content (PDict (h' ! c))
          \<and> prepared_payload (h' ! c) = filter (\<lambda>kv. fst kv \<notin> set metadata_fields) (h ! c)
          \<and> (list_all (\<lambda>k. \<not> dict_has (h ! c) k) metadata_fields
               \<longrightarrow> prepared_payload (h' ! c) = h ! c)
          \<and> (list_all (\<lambda>k. \<not> dict_has p k) metadata_fields \<and> h ! c = dict_set p ''id'' v
               \<longrightarrow> prepared_payload (h' ! c) = p)"
    if len: "c < length h"
      and sv: "save_classification_to_file a now c filename output_dir h fs = (Inr (), h', fs')"
  proof -
    from save_ok_file [OF sv] have mk: "makedirs_error fs output_dir = None"
      and fl: "file_at fs' (os_path_join output_dir filename) = Content (PDict (h' ! c))"
      by simp_all
    from save_result_cases [OF sv mk len] len
    have at: "h' ! c = dict_set (dict_set (dict_set (h ! c) ''export_date'' (PStr now))
                  ''export_org'' (org_name a)) ''export_user'' (user_id a)"
      by simp
    have eq: "prepared_payload (h' ! c) = filter (\<lambda>kv. fst kv \<notin> set metadata_fields) (h ! c)"
      unfolding at prepared_payload_export by (rule prepared_payload_filter)
    have none: "prepared_payload (h' ! c) = h ! c"
      if "list_all (\<lambda>k. \<not> dict_has (h ! c) k) metadata_fields"
      using that eq by (simp add: filter_all_keep)
    have withid: "prepared_payload (h' ! c) = p"
      if "list_all (\<lambda>k. \<not> dict_has p k) metadata_fields" and "h ! c = dict_set p ''id'' v"
    proof -
      have "filter (\<lambda>kv. fst kv \<notin> set metadata_fields) (dict_set p ''id'' v)
            = filter (\<lambda>kv. fst kv \<notin> set metadata_fields) p"
        by (rule filter_dict_set) (simp add: metadata_fields_def)
      with that eq show ?thesis by (simp add: filter_all_keep)
    qed
    from fl eq none withid show ?thesis by blast
  qed
  from 1 2 3 show ?thesis by blast
qed


text \<open>The theorem of claim C7 at an exported record with an \<open>id\<close>.\<close>

theorem C7_prepare_roundtrip_witness:
  "fst (save_classification_to_file example_auth ''Mon, 01 Jan 2024 12:00:00 GMT'' 0
          ''PII.json'' ''out'' [example_record] example_fs) = Inr ()
   \<and> prepared_payload
        (fst (snd (save_classification_to_file example_auth ''Mon, 01 Jan 2024 12:00:00 GMT'' 0
          ''PII.json'' ''out'' [example_record] example_fs)) ! 0)
      = [(''name'', PStr ''PII''), (''rules'', PList [])]
   \<and> prepared_payload
        (fst (snd (save_classification_to_file example_auth ''Mon, 01 Jan 2024 12:00:00 GMT'' 0
          ''PII.json'' ''out'' [example_record] example_fs)) ! 0)
      = prepared_payload example_record"
proof -
  let ?res = "save_classification_to_file example_auth ''Mon, 01 Jan 2024 12:00:00 GMT'' 0
          ''PII.json'' ''out'' [example_record] example_fs"
  have ok: "fst ?res = Inr ()"
    by (simp add: save_classification_to_file_def example_fs_def Let_def)
  then have sv: "?res = (Inr (), fst (snd ?res), snd (snd ?res))"
    by (metis prod.collapse)
  have len: "(0::nat) < length [example_record]" by simp
  from C7_prepare_roundtrip [of example_record "''name''" 0 "[example_record]" example_auth
      "''Mon, 01 Jan 2024 12:00:00 GMT''" "''PII.json''" "''out''" example_fs
      "fst (snd ?res)" "snd (snd ?res)" "[(''name'', PStr ''PII''), (''rules'', PList [])]"
      "PStr ''c-17''"] len sv
  have "prepared_payload (fst (snd ?res) ! 0)
          = filter (\<lambda>kv. fst kv \<notin> set metadata_fields) ([example_record] ! 0)"
    and "prepared_payload example_record
          = filter (\<lambda>kv. fst kv \<notin> set metadata_fields) example_record"
    by blast+
  then have "prepared_payload (fst (snd ?res) ! 0) = [(''name'', PStr ''PII''), (''rules'', PList [])]"
    and "prepared_payload (fst (snd ?res) ! 0) = prepared_payload example_record"
    by (simp_all add: example_record_def metadata_fields_def)
  with ok show ?thesis by simp
qed

text \<open>
  Claim C10, as stated, fails: when \<open>os.makedirs\<close> raises, the call ends before the three
  assignments, and the dict passed in has none of the three fields.
\<close>

theorem C10_counterexample:
  "fst (save_classification_to_file example_auth ''Mon, 01 Jan 2024 12:00:00 GMT'' 0
          ''PII.json'' ''/readonly'' [example_record] example_fs) = Inl OSError
   \<and> fst (snd (save_classification_to_file example_auth ''Mon, 01 Jan 2024 12:00:00 GMT'' 0
          ''PII.json'' ''/readonly'' [example_record] example_fs)) ! 0 = example_record
   \<and> \<not> dict_has example_record ''export_date''
   \<and> \<not> dict_has example_record ''export_org''
   \<and> \<not> dict_has example_record ''export_user''"
  by (simp add: save_classification_to_file_def example_fs_def example_record_def dict_has_def)

text \<open>
  Claim C10, amended: every call of \<open>save_classification_to_file\<close> in which \<open>os.makedirs\<close>
  does not raise, whether the file is then written or the write fails, changes the
  caller's dict itself: no dict is added to the store, every other dict is untouched, and
  the dict passed in then holds \<open>export_date\<close>, \<open>export_org\<close> and \<open>export_user\<close>, its
  other fields unchanged. \<open>prepare_classification_for_import\<close> returns a new dict and
  leaves every dict that existed, its argument included, unchanged. When \<open>os.makedirs\<close>
  raises, the call raises the same exception and changes nothing.
\<close>

theorem C10_mutation:
  "(c < length h \<and> makedirs_error fs output_dir = None
      \<and> save_classification_to_file a now c filename output_dir h fs = (r, h', fs')
    \<longrightarrow> length h' = length h
        \<and> (\<forall>x. x \<noteq> c \<longrightarrow> h' ! x = h ! x)
        \<and> map_of (h' ! c) ''export_date'' = Some (PStr now)
        \<and> map_of (h' ! c) ''export_org'' = Some (org_name a)
        \<and> map_of (h' ! c) ''export_user'' = Some (user_id a)
        \<and> (\<forall>k. k \<notin> set [''export_date'', ''export_org'', ''export_user'']
              \<longrightarrow> map_of (h' ! c) k = map_of (h ! c) k))
   \<and> (c < length h \<and> prepare_classification_for_import h c = (p, h2)
    \<longrightarrow> p = length h \<and> p \<noteq> c \<and> length h2 = Suc (length h)
        \<and> (\<forall>x < length h. h2 ! x = h ! x)
        \<and> h2 ! p = filter (\<lambda>kv. fst kv \<notin> set metadata_fields) (h ! c))
   \<and> (makedirs_error fs output_dir = Some e
    \<longrightarrow> save_classification_to_file a now c filename output_dir h fs = (Inl e, h, fs))"
proof -
  have A: "length h' = length h
        \<and> (\<forall>x. x \<noteq> c \<longrightarrow> h' ! x = h ! x)
        \<and> map_of (h' ! c) ''export_date'' = Some (PStr now)
        \<and> map_of (h' ! c) ''export_org'' = Some (org_name a)
        \<and> map_of (h' ! c) ''export_user'' = Some (user_id a)
        \<and> (\<forall>k. k \<notin> set [''export_date'', ''export_org'', ''export_user'']
              \<longrightarrow> map_of (h' ! c) k = map_of (h ! c) k)"
    if len: "c < length h" and mk: "makedirs_error fs output_dir = None"
      and sv: "save_classification_to_file a now c filename output_dir h fs = (r, h', fs')"
  proof -
    note eq = save_result_cases [OF sv mk len]
    have l: "length h' = length h" unfolding eq by simp
    have o: "\<forall>x. x \<noteq> c \<longrightarrow> h' ! x = h ! x" unfolding eq by simp
    have at: "h' ! c = dict_set (dict_set (dict_set (h ! c) ''export_date'' (PStr now))
                  ''export_org'' (org_name a)) ''export_user'' (user_id a)"
      unfolding eq using len by simp
    show ?thesis using l o unfolding at by (simp add: map_of_dict_set)
  qed
  have B: "p = length h \<and> p \<noteq> c \<and> length h2 = Suc (length h)
        \<and> (\<forall>x < length h. h2 ! x = h ! x)
        \<and> h2 ! p = filter (\<lambda>kv. fst kv \<notin> set metadata_fields) (h ! c)"
    if len: "c < length h" and pr: "prepare_classification_for_import h c = (p, h2)"
  proof -
    from pr have p: "p = length h" and h2: "h2 = del_fields (h @ [h ! c]) (length h) metadata_fields"
      by (auto simp: prepare_classification_for_import_def Let_def)
    have "h2 ! p = filter (\<lambda>kv. fst kv \<notin> set metadata_fields) ((h @ [h ! c]) ! length h)"
      unfolding p h2 by (rule del_fields_at) simp
    then have at: "h2 ! p = filter (\<lambda>kv. fst kv \<notin> set metadata_fields) (h ! c)" by simp
    have old: "\<forall>x < length h. h2 ! x = h ! x"
      unfolding h2 by (simp add: del_fields_append_other)
    show ?thesis using p len at old unfolding h2 by (simp add: del_fields_length)
  qed
  have C: "save_classification_to_file a now c filename output_dir h fs = (Inl e, h, fs)"
    if "makedirs_error fs output_dir = Some e"
    using that by (simp add: save_classification_to_file_def)
  from A B C show ?thesis by blast
qed

text \<open>The theorem of claim C10 at the example record.\<close>

theorem C10_mutation_witness:
  "map_of (fst (snd (save_classification_to_file example_auth ''Mon, 01 Jan 2024 12:00:00 GMT'' 0
          ''PII.json'' ''out'' [example_record] example_fs)) ! 0) ''export_org''
     = Some (PStr ''acme'')
   \<and> fst (prepare_classification_for_import [example_record] 0) = 1
   \<and> snd (prepare_classification_for_import [example_record] 0) ! 0 = example_record
   \<and> snd (prepare_classification_for_import [example_record] 0) ! 1
       = [(''name'', PStr ''PII''), (''rules'', PList [])]"
proof -
  let ?res = "save_classification_to_file example_auth ''Mon, 01 Jan 2024 12:00:00 GMT'' 0
          ''PII.json'' ''out'' [example_record] example_fs"
  let ?pre = "prepare_classification_for_import [example_record] 0"
  have len: "(0::nat) < length [example_record]" by simp
  have mk: "makedirs_error example_fs ''out'' = None" by (simp add: example_fs_def)
  have sv: "?res = (fst ?res, fst (snd ?res), snd (snd ?res))" by simp
  have pr: "?pre = (fst ?pre, snd ?pre)" by simp
  from C10_mutation [of 0 "[example_record]" example_fs "''out''" example_auth
      "''Mon, 01 Jan 2024 12:00:00 GMT''" "''PII.json''" "fst ?res" "fst (snd ?res)"
      "snd (snd ?res)" "fst ?pre" "snd ?pre"] len mk sv pr
  have "map_of (fst (snd ?res) ! 0) ''export_org'' = Some (org_name example_auth)"
    and "fst ?pre = length [example_record]"
    and "\<forall>x < length [example_record]. snd ?pre ! x = [example_record] ! x"
    and "snd ?pre ! fst ?pre = filter (\<lambda>kv. fst kv \<notin> set metadata_fields) ([example_record] ! 0)"
    by blast+
  then show ?thesis
    by (simp add: example_auth_def example_record_def metadata_fields_def)
qed

section \<open>The reconcile step and the batch: theorems\<close>

lemma lower_PII: "lower ''PII'' = ''pii''" "lower ''pii'' = ''pii''" "lower ''Email'' = ''email''"
  by (simp_all add: lower_def lower_char_def char_of_eval)

lemma remote_record_cases:
  assumes "remote_record c"
  obtains d s where "c = PDict d" "d \<noteq> []" "dict_get d ''name'' (PStr []) = PStr s"
proof (cases c)
  case (PDict d)
  with assms have ne: "d \<noteq> []" by (simp add: remote_record_def)
  from PDict assms obtain s where "dict_get d ''name'' (PStr []) = PStr s"
    by (cases "dict_get d ''name'' (PStr [])") (auto simp: remote_record_def)
  with PDict ne that show ?thesis by blast
qed (use assms in \<open>auto simp: remote_record_def\<close>)

lemma find_classification_wf:
  assumes "list_all remote_record coll"
  shows "find_classification coll (PStr n) =
           Inr (case List.find (name_matches n) coll of None \<Rightarrow> PNone | Some e \<Rightarrow> e)"
  using assms
proof (induction coll)
  case Nil
  then show ?case by simp
next
  case (Cons c cs)
  from Cons.prems have hc: "remote_record c" and hcs: "list_all remote_record cs" by simp_all
  from hc obtain d s where c: "c = PDict d" and nm: "dict_get d ''name'' (PStr []) = PStr s"
    by (rule remote_record_cases)
  have m: "name_matches n (PDict d) = (lower s = lower n)"
    by (simp add: name_matches_def nm)
  show ?case
    using Cons.IH [OF hcs]
    by (simp add: c py_get_def nm and_then_def py_lower_def m)
qed

lemma find_Some_remote_record:
  assumes "list_all remote_record coll" "List.find P coll = Some e"
  shows "remote_record e"
  using assms by (auto simp: find_Some_iff list_all_length)

lemma remote_record_truthy: "remote_record e \<Longrightarrow> truthy e"
  by (erule remote_record_cases) auto

lemma remote_record_id: "remote_record e \<Longrightarrow> py_get e ''id'' PNone = Inr (remote_id e)"
  by (erule remote_record_cases) (simp add: py_get_def remote_id_def)

text \<open>
  Claim C2: take any local record (a dict, whose name is a string or absent, in which
  case the name is "Unknown") and any remote collection that the fetch returns, made
  of remote records. If the collection has a record with the same name up to case,
  the first such record \<open>e\<close> in the collection's order decides: with \<open>update_if_exists\<close>
  the step makes, after the fetch, exactly one call, the update with the id of \<open>e\<close> and
  the prepared payload; without it the step makes no call after the fetch. If there
  is no such record, the step makes exactly one call after the fetch, the create with
  the prepared payload.
\<close>

theorem C2_reconcile_step:
  assumes "get_all_classifications client (world st) = (Inr coll, w1)"
    and "list_all remote_record coll"
    and "dict_get d ''name'' (PStr ''Unknown'') = PStr n"
  shows "fst (import_classification client (PDict d) update_if_exists st) = Inr PNone
    \<and> (\<forall>e. List.find (name_matches n) coll = Some e \<and> update_if_exists \<longrightarrow>
          calls (snd (import_classification client (PDict d) update_if_exists st))
            = calls st @ [GetAll, Update (remote_id e) (prepared_payload d)]
          \<and> world (snd (import_classification client (PDict d) update_if_exists st))
            = snd (update_classification client (remote_id e) (prepared_payload d) w1))
    \<and> (\<forall>e. List.find (name_matches n) coll = Some e \<and> \<not> update_if_exists \<longrightarrow>
          calls (snd (import_classification client (PDict d) update_if_exists st))
            = calls st @ [GetAll]
          \<and> world (snd (import_classification client (PDict d) update_if_exists st)) = w1)
    \<and> (List.find (name_matches n) coll = None \<longrightarrow>
          calls (snd (import_classification client (PDict d) update_if_exists st))
            = calls st @ [GetAll, Create (prepared_payload d)]
          \<and> world (snd (import_classification client (PDict d) update_if_exists st))
            = snd (create_classification client (prepared_payload d) w1))"
proof -
  let ?st1 = "st\<lparr>world := w1, calls := calls st @ [GetAll]\<rparr>"
  have ex: "classification_exists client (PStr n) st =
      (Inr (case List.find (name_matches n) coll of None \<Rightarrow> PNone | Some e \<Rightarrow> e), ?st1)"
    by (simp add: classification_exists_def call_get_all_def assms(1)
        find_classification_wf [OF assms(2)])
  show ?thesis
  proof (cases "List.find (name_matches n) coll")
    case None
    then show ?thesis
      using ex assms(3)
      by (simp add: import_classification_def Let_def call_create_def split: prod.splits)
  next
    case (Some e)
    from find_Some_remote_record [OF assms(2) Some] have he: "remote_record e" .
    show ?thesis
      using ex assms(3) Some remote_record_truthy [OF he] remote_record_id [OF he]
      by (simp add: import_classification_def Let_def call_update_def split: prod.splits)
  qed
qed


text \<open>The theorem of claim C2 on a collection with two records named PII up to case.\<close>

theorem C2_reconcile_step_witness:
  "calls (snd (import_classification example_client (PDict example_record) True
             \<lparr>world = example_remote, calls = []\<rparr>))
     = [GetAll, Update (PStr ''r-2'') [(''name'', PStr ''PII''), (''rules'', PList [])]]
   \<and> calls (snd (import_classification example_client (PDict example_record) False
             \<lparr>world = example_remote, calls = []\<rparr>))
     = [GetAll]
   \<and> calls (snd (import_classification example_client (PDict example_record) True
             \<lparr>world = [], calls = []\<rparr>))
     = [GetAll, Create [(''name'', PStr ''PII''), (''rules'', PList [])]]"
proof -
  have g: "get_all_classifications example_client (world \<lparr>world = example_remote, calls = []\<rparr>)
            = (Inr example_remote, example_remote)"
    by (simp add: example_client_def)
  have g0: "get_all_classifications example_client (world \<lparr>world = [], calls = []\<rparr>)
            = (Inr [], [])"
    by (simp add: example_client_def)
  have wf: "list_all remote_record example_remote"
    by (simp add: example_remote_def remote_record_def dict_get_def)
  have wf0: "list_all remote_record []" by simp
  have nm: "dict_get example_record ''name'' (PStr ''Unknown'') = PStr ''PII''"
    by (simp add: example_record_def dict_get_def)
  have f: "List.find (name_matches ''PII'') example_remote
            = Some (PDict [(''id'', PStr ''r-2''), (''name'', PStr ''pii'')])"
    by (simp add: example_remote_def name_matches_def dict_get_def lower_PII)
  have f0: "List.find (name_matches ''PII'') [] = None" by simp
  have p: "prepared_payload example_record = [(''name'', PStr ''PII''), (''rules'', PList [])]"
    by (simp add: prepared_payload_filter example_record_def metadata_fields_def)
  have r: "remote_id (PDict [(''id'', PStr ''r-2''), (''name'', PStr ''pii'')]) = PStr ''r-2''"
    by (simp add: remote_id_def dict_get_def)
  from C2_reconcile_step [OF g wf nm, of True] f
  have 1: "calls (snd (import_classification example_client (PDict example_record) True
             \<lparr>world = example_remote, calls = []\<rparr>))
     = [GetAll, Update (PStr ''r-2'') [(''name'', PStr ''PII''), (''rules'', PList [])]]"
    by (simp add: p r)
  from C2_reconcile_step [OF g wf nm, of False] f
  have 2: "calls (snd (import_classification example_client (PDict example_record) False
             \<lparr>world = example_remote, calls = []\<rparr>)) = [GetAll]"
    by simp
  from C2_reconcile_step [OF g0 wf0 nm, of True] f0
  have 3: "calls (snd (import_classification example_client (PDict example_record) True
             \<lparr>world = [], calls = []\<rparr>))
     = [GetAll, Create [(''name'', PStr ''PII''), (''rules'', PList [])]]"
    by (simp add: p)
  from 1 2 3 show ?thesis by blast
qed

lemma import_files_append:
  "import_files client fs directory u (xs @ ys) st
     = import_files client fs directory u ys (import_files client fs directory u xs st)"
  by (induction xs arbitrary: st) (auto split: prod.splits sum.splits)

lemma import_files_step:
  "import_files client fs directory u (f # ys) st
     = import_files client fs directory u ys
         (snd (import_classification_from_file client fs (os_path_join directory f) u st))"
  by (auto split: prod.splits sum.splits)

lemma import_classification_no_raise:
  "fst (import_classification client (PDict d) u st) = Inr PNone"
  by (simp add: import_classification_def Let_def split: prod.splits sum.splits)

text \<open>
  Claim C3, as stated, fails: the batch returns no counts. On a directory with one
  unreadable and one good file it returns \<open>None\<close>, after creating the good record.
\<close>

theorem C3_counterexample:
  "fst (import_all_from_directory example_client example_fs ''in'' False
          \<lparr>world = [], calls = []\<rparr>) = Inr PNone
   \<and> \<not> is_counts PNone
   \<and> calls (snd (import_all_from_directory example_client example_fs ''in'' False
          \<lparr>world = [], calls = []\<rparr>))
       = [GetAll, Create [(''name'', PStr ''PII''), (''rules'', PList [])]]"
  by (simp add: import_all_from_directory_def example_fs_def endswith_def is_counts_def
      import_classification_from_file_def read_classification_file_def os_path_join_def
      py_contains_def dict_has_def example_record_def import_classification_def
      prepared_payload_filter metadata_fields_def classification_exists_def call_get_all_def
      example_client_def call_create_def dict_get_def Let_def)

text \<open>
  Claim C3, amended: for every batch of input records (the JSON files of a directory that
  exists and can be listed) the batch call returns normally with a value that is not the
  four counts \<open>{created, updated, skipped, failed}\<close>; an exception raised while processing
  any single record does not leave the batch call: whatever the files before it and the
  file itself did, the files after it are processed, from the state they left; and the
  reconcile step itself returns normally on every record that is a dict, whatever the
  client raises.
\<close>

theorem C3_batch:
  "(isdir fs directory \<and> listdir fs directory = Inr names \<longrightarrow>
      (\<exists>v. fst (import_all_from_directory client fs directory u st) = Inr v \<and> \<not> is_counts v)
      \<and> snd (import_all_from_directory client fs directory u st)
          = import_files client fs directory u (filter (\<lambda>f. endswith f ''.json'') names) st)
   \<and> import_files client fs directory u (xs @ f # ys) st
       = import_files client fs directory u ys
           (snd (import_classification_from_file client fs (os_path_join directory f) u
                  (import_files client fs directory u xs st)))
   \<and> fst (import_classification client (PDict d) u st) = Inr PNone"
proof -
  have A: "(\<exists>v. fst (import_all_from_directory client fs directory u st) = Inr v \<and> \<not> is_counts v)
      \<and> snd (import_all_from_directory client fs directory u st)
          = import_files client fs directory u (filter (\<lambda>f. endswith f ''.json'') names) st"
    if "isdir fs directory" "listdir fs directory = Inr names"
    using that by (simp add: import_all_from_directory_def Let_def is_counts_def)
  have B: "import_files client fs directory u (xs @ f # ys) st
       = import_files client fs directory u ys
           (snd (import_classification_from_file client fs (os_path_join directory f) u
                  (import_files client fs directory u xs st)))"
    by (simp only: import_files_append import_files_step)
  from A B import_classification_no_raise [of client d u st] show ?thesis by blast
qed

text \<open>The theorem of claim C3 on the example directory, whose first file is unreadable.\<close>

theorem C3_batch_witness:
  "fst (import_all_from_directory example_client example_fs ''in'' False
          \<lparr>world = [], calls = []\<rparr>) = Inr PNone
   \<and> snd (import_all_from_directory example_client example_fs ''in'' False
          \<lparr>world = [], calls = []\<rparr>)
      = import_files example_client example_fs ''in'' False [''b.json'', ''a.json'']
          \<lparr>world = [], calls = []\<rparr>
   \<and> fst (import_classification_from_file example_client example_fs ''in/b.json'' False
          \<lparr>world = [], calls = []\<rparr>) = Inl ValueError"
proof -
  have d: "isdir example_fs ''in''" and l: "listdir example_fs ''in'' = Inr [''b.json'', ''notes.txt'', ''a.json'']"
    by (simp_all add: example_fs_def)
  from C3_batch [of example_fs "''in''" "[''b.json'', ''notes.txt'', ''a.json'']" example_client
      False "\<lparr>world = [], calls = []\<rparr>" "[]" "''b.json''" "[''a.json'']"] d l
  obtain v where v: "fst (import_all_from_directory example_client example_fs ''in'' False
          \<lparr>world = [], calls = []\<rparr>) = Inr v"
    and s: "snd (import_all_from_directory example_client example_fs ''in'' False
          \<lparr>world = [], calls = []\<rparr>)
      = import_files example_client example_fs ''in'' False
          (filter (\<lambda>f. endswith f ''.json'') [''b.json'', ''notes.txt'', ''a.json''])
          \<lparr>world = [], calls = []\<rparr>"
    by blast
  have f: "filter (\<lambda>f. endswith f ''.json'') [''b.json'', ''notes.txt'', ''a.json'']
            = [''b.json'', ''a.json'']"
    by (simp add: endswith_def)
  from v have "v = PNone"
    by (simp add: import_all_from_directory_def example_fs_def endswith_def)
  moreover have "fst (import_classification_from_file example_client example_fs ''in/b.json'' False
          \<lparr>world = [], calls = []\<rparr>) = Inl ValueError"
    by (simp add: import_classification_from_file_def read_classification_file_def example_fs_def)
  ultimately show ?thesis using v s f by simp
qed

section \<open>Resolve and launch: theorems\<close>
















lemma launch_success:
  assumes "launch_body run sid nm caps = Inr (True, h)"
  shows "\<exists>result job_id job_uri. run sid caps = Inr result
           \<and> py_get result ''jobId'' PNone = Inr job_id \<and> truthy job_id
           \<and> h = PDict [(''jobId'', job_id), (''jobUri'', job_uri),
                         (''catalogSourceName'', nm), (''catalogSourceId'', sid)]"
proof -
  from assms obtain result where r: "run sid caps = Inr result"
    by (cases "run sid caps") (auto simp: launch_body_def and_then_def)
  from assms r obtain job_id where j: "py_get result ''jobId'' PNone = Inr job_id"
    by (cases "py_get result ''jobId'' PNone") (auto simp: launch_body_def and_then_def)
  from assms r j obtain u where u: "py_get result ''jobUri'' PNone = Inr u"
    by (cases "py_get result ''jobUri'' PNone") (auto simp: launch_body_def and_then_def)
  from assms r j u obtain job_uri
    where "(if truthy u then Inr u else py_get result ''trackingURI'' PNone) = Inr job_uri"
    by (cases "if truthy u then Inr u else py_get result ''trackingURI'' PNone")
      (auto simp: launch_body_def and_then_def)
  with assms r j u show ?thesis
    by (auto simp: launch_body_def and_then_def split: if_splits)
qed

lemma truthy_nonempty: "truthy v \<Longrightarrow> v \<noteq> PNone \<and> v \<noteq> PStr []"
  by (cases v) auto

text \<open>
  Claim C6: a launch that returns success comes from a remote call that returned, with
  a response whose \<open>jobId\<close> is true as a Python value, so neither \<open>None\<close> nor the empty
  string, and that \<open>jobId\<close> is the one in the job handle returned. On a catalog source
  that carries its id and name, the launcher returns \<open>(False, None)\<close> whenever the remote
  call raises and whenever the response carries no job id; and every result that is not
  a success is \<open>(False, None)\<close>.
\<close>

theorem C6_launch:
  "(execute_catalog_source run catalogSource caps = Inr (True, h)
    \<longrightarrow> (\<exists>sid result job_id job_uri nm.
           run sid caps = Inr result
           \<and> py_get result ''jobId'' PNone = Inr job_id
           \<and> truthy job_id \<and> job_id \<noteq> PNone \<and> job_id \<noteq> PStr []
           \<and> h = PDict [(''jobId'', job_id), (''jobUri'', job_uri),
                         (''catalogSourceName'', nm), (''catalogSourceId'', sid)]))
   \<and> (py_getitem catalogSource ''systemAttributes'' = Inr attrs
       \<and> py_get attrs ''core.origin'' PNone = Inr sid
       \<and> py_getitem catalogSource ''summary'' = Inr summary
       \<and> py_get summary ''core.name'' PNone = Inr nm
       \<and> run sid caps = Inl e
    \<longrightarrow> execute_catalog_source run catalogSource caps = Inr (False, PNone))
   \<and> (py_getitem catalogSource ''systemAttributes'' = Inr attrs
       \<and> py_get attrs ''core.origin'' PNone = Inr sid
       \<and> py_getitem catalogSource ''summary'' = Inr summary
       \<and> py_get summary ''core.name'' PNone = Inr nm
       \<and> run sid caps = Inr result
       \<and> (\<forall>job_id. py_get result ''jobId'' PNone = Inr job_id \<longrightarrow> \<not> truthy job_id)
    \<longrightarrow> execute_catalog_source run catalogSource caps = Inr (False, PNone))
   \<and> (\<forall>r. execute_catalog_source run catalogSource caps = Inr r \<and> \<not> fst r \<longrightarrow> r = (False, PNone))"
proof -
  have 1: "\<exists>sid result job_id job_uri nm.
           run sid caps = Inr result
           \<and> py_get result ''jobId'' PNone = Inr job_id
           \<and> truthy job_id \<and> job_id \<noteq> PNone \<and> job_id \<noteq> PStr []
           \<and> h = PDict [(''jobId'', job_id), (''jobUri'', job_uri),
                         (''catalogSourceName'', nm), (''catalogSourceId'', sid)]"
    if ex: "execute_catalog_source run catalogSource caps = Inr (True, h)"
  proof -
    from ex obtain sid nm where "launch_body run sid nm caps = Inr (True, h)"
      by (auto simp: execute_catalog_source_def and_then_def split: sum.splits)
    from launch_success [OF this] truthy_nonempty show ?thesis by blast
  qed
  have 2: "execute_catalog_source run catalogSource caps = Inr (False, PNone)"
    if "py_getitem catalogSource ''systemAttributes'' = Inr attrs"
      "py_get attrs ''core.origin'' PNone = Inr sid"
      "py_getitem catalogSource ''summary'' = Inr summary"
      "py_get summary ''core.name'' PNone = Inr nm" "run sid caps = Inl e"
    using that by (simp add: execute_catalog_source_def launch_body_def and_then_def)
  have 3: "execute_catalog_source run catalogSource caps = Inr (False, PNone)"
    if "py_getitem catalogSource ''systemAttributes'' = Inr attrs"
      "py_get attrs ''core.origin'' PNone = Inr sid"
      "py_getitem catalogSource ''summary'' = Inr summary"
      "py_get summary ''core.name'' PNone = Inr nm" "run sid caps = Inr result"
      "\<forall>job_id. py_get result ''jobId'' PNone = Inr job_id \<longrightarrow> \<not> truthy job_id"
    using that
    by (auto simp: execute_catalog_source_def launch_body_def and_then_def split: sum.splits)
  have 4: "\<forall>r. execute_catalog_source run catalogSource caps = Inr r \<and> \<not> fst r \<longrightarrow> r = (False, PNone)"
    by (auto simp: execute_catalog_source_def launch_body_def and_then_def
        split: sum.splits if_splits)
  from 1 2 3 4 show ?thesis by blast
qed


text \<open>The theorem of claim C6 on the three answers of the example job service.\<close>

theorem C6_launch_witness:
  "execute_catalog_source example_run (example_asset ''o-2'' ''sales db'')
       (Some [''Metadata Extraction''])
     = Inr (True, PDict [(''jobId'', PStr ''job-42''), (''jobUri'', PStr ''/jobs/job-42''),
                         (''catalogSourceName'', PStr ''sales db''),
                         (''catalogSourceId'', PStr ''o-2'')])
   \<and> (\<exists>sid result job_id. example_run sid (Some [''Metadata Extraction'']) = Inr result
         \<and> py_get result ''jobId'' PNone = Inr job_id \<and> job_id \<noteq> PNone \<and> job_id \<noteq> PStr [])
   \<and> execute_catalog_source example_run (example_asset ''o-3'' ''Sales DB'')
       (Some [''Metadata Extraction'']) = Inr (False, PNone)
   \<and> execute_catalog_source example_run (example_asset ''o-9'' ''Other'')
       (Some [''Metadata Extraction'']) = Inr (False, PNone)"
proof -
  let ?caps = "Some [''Metadata Extraction'']"
  let ?h = "PDict [(''jobId'', PStr ''job-42''), (''jobUri'', PStr ''/jobs/job-42''),
                         (''catalogSourceName'', PStr ''sales db''),
                         (''catalogSourceId'', PStr ''o-2'')]"
  have a: "py_getitem (example_asset origin n) ''systemAttributes''
             = Inr (PDict [(''core.origin'', PStr origin)])"
    and b: "py_get (PDict [(''core.origin'', PStr origin)]) ''core.origin'' PNone = Inr (PStr origin)"
    and c: "py_getitem (example_asset origin n) ''summary'' = Inr (PDict [(''core.name'', PStr n)])"
    and d: "py_get (PDict [(''core.name'', PStr n)]) ''core.name'' PNone = Inr (PStr n)"
    for origin n
    by (simp_all add: example_asset_def py_getitem_def py_get_def dict_get_def)
  have ok: "execute_catalog_source example_run (example_asset ''o-2'' ''sales db'') ?caps
              = Inr (True, ?h)"
    by (simp add: execute_catalog_source_def launch_body_def and_then_def a b c d example_run_def
        py_get_def dict_get_def)
  from C6_launch [of example_run "example_asset ''o-2'' ''sales db''" ?caps ?h] ok
  have 1: "\<exists>sid result job_id. example_run sid ?caps = Inr result
         \<and> py_get result ''jobId'' PNone = Inr job_id \<and> job_id \<noteq> PNone \<and> job_id \<noteq> PStr []"
    by blast
  have r3: "example_run (PStr ''o-3'') ?caps = Inr (PDict [(''accepted'', PBool True)])"
    by (simp add: example_run_def)
  have n3: "\<forall>job_id. py_get (PDict [(''accepted'', PBool True)]) ''jobId'' PNone = Inr job_id
              \<longrightarrow> \<not> truthy job_id"
    by (simp add: py_get_def dict_get_def)
  from C6_launch [of example_run "example_asset ''o-3'' ''Sales DB''" ?caps _
      "PDict [(''core.origin'', PStr ''o-3'')]" "PStr ''o-3''" "PDict [(''core.name'', PStr ''Sales DB'')]"
      "PStr ''Sales DB''" _ "PDict [(''accepted'', PBool True)]"] a b c d r3 n3
  have 2: "execute_catalog_source example_run (example_asset ''o-3'' ''Sales DB'') ?caps
             = Inr (False, PNone)"
    by blast
  have r9: "example_run (PStr ''o-9'') ?caps = Inl CDGCAPIError"
    by (simp add: example_run_def)
  from C6_launch [of example_run "example_asset ''o-9'' ''Other''" ?caps _
      "PDict [(''core.origin'', PStr ''o-9'')]" "PStr ''o-9''" "PDict [(''core.name'', PStr ''Other'')]"
      "PStr ''Other''" CDGCAPIError] a b c d r9
  have 3: "execute_catalog_source example_run (example_asset ''o-9'' ''Other'') ?caps
             = Inr (False, PNone)"
    by blast
  from ok 1 2 3 show ?thesis by blast
qed

section \<open>Monitor: theorems\<close>

lemma get_job_status_Cons:
  "responses w = (lat, r) # rest \<Longrightarrow> get_job_status j w = Some (r, after_fetch j lat w)"
  by (simp add: get_job_status_def after_fetch_def)

lemma loop_timeout:
  "clock w - start > timeout \<Longrightarrow> monitor_loop j p timeout start w = Some (Inl TimeoutError, w)"
  by (subst monitor_loop.simps) (simp add: time_time_def)

lemma loop_running_step:
  assumes "responses w = (lat, Inr status) # rest" "running_status status"
    "clock w - start \<le> timeout" "0 \<le> p"
  shows "monitor_loop j p timeout start w
           = monitor_loop j p timeout start ((after_fetch j lat w)\<lparr>clock := clock w + lat + p\<rparr>)"
proof -
  from assms(2) obtain s where s: "job_state_of status = Inr s"
    and n: "s \<notin> set [''COMPLETED'', ''SUCCESS'', ''SUCCESSFUL'', ''PARTIAL_COMPLETED'',
                          ''FAILED'', ''ERROR'', ''CANCELLED'']"
    by (cases "job_state_of status") (auto simp: running_status_def)
  have sl: "time_sleep p (after_fetch j lat w) = Inr ((after_fetch j lat w)\<lparr>clock := clock w + lat + p\<rparr>)"
    using assms(4) by (simp add: time_sleep_def after_fetch_def)
  show ?thesis
    apply (subst monitor_loop.simps)
    using assms(3) n
    apply (simp add: time_time_def get_job_status_Cons [OF assms(1)] s sl)
    done
qed

lemma loop_success_step:
  assumes "responses w = (lat, Inr status) # rest" "succeeded_status status"
    "clock w - start \<le> timeout"
  shows "monitor_loop j p timeout start w = Some (Inr (True, status), after_fetch j lat w)"
proof -
  from assms(2) obtain s where s: "job_state_of status = Inr s"
    and n: "s \<in> set [''COMPLETED'', ''SUCCESS'', ''SUCCESSFUL'', ''PARTIAL_COMPLETED'']"
    by (cases "job_state_of status") (auto simp: succeeded_status_def)
  show ?thesis
    apply (subst monitor_loop.simps)
    using assms(3) n
    apply (auto simp add: time_time_def get_job_status_Cons [OF assms(1)] s)
    done
qed

lemma loop_failure_step:
  assumes "responses w = (lat, Inr status) # rest" "failed_status status"
    "clock w - start \<le> timeout"
  shows "monitor_loop j p timeout start w = Some (Inl CDGCAPIError, after_fetch j lat w)"
proof -
  from assms(2) obtain s where s: "job_state_of status = Inr s"
    and n: "s \<in> set [''FAILED'', ''ERROR'', ''CANCELLED'']"
    by (cases "job_state_of status") (auto simp: failed_status_def)
  show ?thesis
    apply (subst monitor_loop.simps)
    using assms(3) n
    apply (auto simp add: time_time_def get_job_status_Cons [OF assms(1)] s)
    done
qed

lemma loop_skip_running:
  assumes "0 \<le> p" "responses w = pre @ rest" "list_all running_poll pre"
    "list_all (\<lambda>t. t - start \<le> timeout) (check_times p (clock w) pre)"
  shows "monitor_loop j p timeout start w = monitor_loop j p timeout start (after_running j p pre w)"
  using assms(2-4)
proof (induction pre arbitrary: w)
  case Nil
  show ?case by (simp add: after_running_def)
next
  case (Cons x xs)
  obtain lat r where x: "x = (lat, r)" by (cases x)
  from Cons.prems(2) x obtain status where r: "r = Inr status" and run: "running_status status"
    by (cases r) (auto simp: running_poll_def)
  let ?w2 = "(after_fetch j lat w)\<lparr>clock := clock w + lat + p\<rparr>"
  have resp: "responses w = (lat, Inr status) # (xs @ rest)"
    using Cons.prems(1) x r by simp
  have chk: "clock w - start \<le> timeout" using Cons.prems(3) by simp
  have step: "monitor_loop j p timeout start w = monitor_loop j p timeout start ?w2"
    by (rule loop_running_step [OF resp run chk assms(1)])
  have r2: "responses ?w2 = xs @ rest" by (simp add: after_fetch_def resp)
  have l2: "list_all running_poll xs" using Cons.prems(2) by simp
  have c2: "list_all (\<lambda>t. t - start \<le> timeout) (check_times p (clock ?w2) xs)"
    using Cons.prems(3) x by simp
  have eq: "after_running j p xs ?w2 = after_running j p (x # xs) w"
    by (simp add: after_running_def after_fetch_def x resp)
  from Cons.IH [OF r2 l2 c2] step eq show ?case by simp
qed


lemma loop_Nil:
  "responses w = [] \<Longrightarrow>
   monitor_loop j p timeout start w
     = (if clock w - start > timeout then Some (Inl TimeoutError, w) else None)"
  by (subst monitor_loop.simps) (simp add: time_time_def get_job_status_def)

lemma loop_Cons:
  assumes "responses w = (lat, r) # rest"
  shows "monitor_loop j p timeout start w
     = (if clock w - start > timeout then Some (Inl TimeoutError, w)
        else (case r of
            Inl e \<Rightarrow> Some (Inl e, after_fetch j lat w)
          | Inr status \<Rightarrow>
              (case job_state_of status of
                 Inl e \<Rightarrow> Some (Inl e, after_fetch j lat w)
               | Inr s \<Rightarrow>
                   if s \<in> set [''COMPLETED'', ''SUCCESS'', ''SUCCESSFUL'', ''PARTIAL_COMPLETED'']
                   then Some (Inr (True, status), after_fetch j lat w)
                   else if s \<in> set [''FAILED'', ''ERROR'', ''CANCELLED'']
                   then Some (Inl CDGCAPIError, after_fetch j lat w)
                   else if p < 0 then Some (Inl ValueError, after_fetch j lat w)
                   else monitor_loop j p timeout start
                          ((after_fetch j lat w)\<lparr>clock := clock w + lat + p\<rparr>))))"
  apply (subst monitor_loop.simps)
  apply (simp add: time_time_def get_job_status_Cons [OF assms] time_sleep_def after_fetch_def
      split: sum.splits)
  done

lemma loop_success_only:
  assumes "monitor_loop j p timeout start w = Some (Inr (b, st), w')"
  shows "b \<and> (\<exists>pre lat rest. responses w = pre @ (lat, Inr st) # rest
           \<and> list_all running_poll pre \<and> succeeded_status st \<and> responses w' = rest)"
  using assms
proof (induction "responses w" arbitrary: w)
  case Nil
  from Nil(1) [symmetric] Nil(2) show ?case
    by (simp add: loop_Nil split: if_splits)
next
  case (Cons x xs)
  obtain lat r where x: "x = (lat, r)" by (cases x)
  have resp: "responses w = (lat, r) # xs" using Cons.hyps(2) x by simp
  let ?w1 = "after_fetch j lat w"
  let ?w2 = "?w1\<lparr>clock := clock w + lat + p\<rparr>"
  note unf = loop_Cons [OF resp, of j p timeout start]
  from Cons.prems unf have nt: "\<not> clock w - start > timeout" by (auto split: if_splits)
  from Cons.prems unf nt obtain status where r: "r = Inr status" by (cases r) auto
  from Cons.prems unf nt r obtain s where s: "job_state_of status = Inr s"
    by (cases "job_state_of status") auto
  show ?case
  proof (cases "s \<in> set [''COMPLETED'', ''SUCCESS'', ''SUCCESSFUL'', ''PARTIAL_COMPLETED'']")
    case True
    with Cons.prems unf nt r s have "b" "st = status" "w' = ?w1" by auto
    moreover have "succeeded_status status" using True s by (simp add: succeeded_status_def)
    moreover have "responses ?w1 = xs" by (simp add: after_fetch_def resp)
    ultimately have "responses w = [] @ (lat, Inr st) # xs \<and> list_all running_poll []
        \<and> succeeded_status st \<and> responses w' = xs"
      using resp r by simp
    with \<open>b\<close> show ?thesis by blast
  next
    case False
    with Cons.prems unf nt r s
    have nf: "s \<notin> set [''FAILED'', ''ERROR'', ''CANCELLED'']" and np: "\<not> p < 0"
      and rec: "monitor_loop j p timeout start ?w2 = Some (Inr (b, st), w')"
      by (auto split: if_splits)
    have r2: "xs = responses ?w2" by (simp add: after_fetch_def resp)
    from Cons.hyps(1) [OF r2 rec] obtain pre lat' rest where b: b
      and p: "responses ?w2 = pre @ (lat', Inr st) # rest" "list_all running_poll pre"
        "succeeded_status st" "responses w' = rest"
      by blast
    have run: "running_poll x"
      using False nf s x r by (simp add: running_poll_def running_status_def)
    have "responses w = (x # pre) @ (lat', Inr st) # rest \<and> list_all running_poll (x # pre)
        \<and> succeeded_status st \<and> responses w' = rest"
      using p r2 resp x run by simp
    with b show ?thesis by blast
  qed
qed

lemma loop_fetch_times:
  assumes "monitor_loop j p timeout start w = Some (r, w')"
  shows "\<exists>new. fetched w' = fetched w @ new
           \<and> list_all (\<lambda>f. fst f - start \<le> timeout \<and> snd f = j) new
           \<and> length new + length (responses w') = length (responses w)"
  using assms
proof (induction "responses w" arbitrary: w)
  case Nil
  from Nil(1) [symmetric] Nil(2) have "w' = w" by (simp add: loop_Nil split: if_splits)
  then show ?case by simp
next
  case (Cons x xs)
  obtain lat a where x: "x = (lat, a)" by (cases x)
  have resp: "responses w = (lat, a) # xs" using Cons.hyps(2) x by simp
  let ?w1 = "after_fetch j lat w"
  let ?w2 = "?w1\<lparr>clock := clock w + lat + p\<rparr>"
  note unf = loop_Cons [OF resp, of j p timeout start]
  show ?case
  proof (cases "clock w - start > timeout")
    case True
    with Cons.prems unf have "w' = w" by simp
    then show ?thesis by simp
  next
    case nt: False
    have one: "fetched ?w1 = fetched w @ [(clock w, j)]" "responses ?w1 = xs"
      by (simp_all add: after_fetch_def resp)
    have done1: ?thesis if "w' = ?w1"
    proof -
      have "fetched w' = fetched w @ [(clock w, j)]
          \<and> list_all (\<lambda>f. fst f - start \<le> timeout \<and> snd f = j) [(clock w, j)]
          \<and> length [(clock w, j)] + length (responses w') = length (responses w)"
        using that one nt resp by simp
      then show ?thesis by blast
    qed
    have rec1: ?thesis if rec: "monitor_loop j p timeout start ?w2 = Some (r, w')"
    proof -
      have r2: "xs = responses ?w2" by (simp add: after_fetch_def resp)
      from Cons.hyps(1) [OF r2 rec] obtain new where n: "fetched w' = fetched ?w2 @ new"
        "list_all (\<lambda>f. fst f - start \<le> timeout \<and> snd f = j) new"
        "length new + length (responses w') = length (responses ?w2)"
        by blast
      have "fetched w' = fetched w @ ((clock w, j) # new)
          \<and> list_all (\<lambda>f. fst f - start \<le> timeout \<and> snd f = j) ((clock w, j) # new)
          \<and> length ((clock w, j) # new) + length (responses w') = length (responses w)"
        using n nt one resp by (simp add: after_fetch_def)
      then show ?thesis by blast
    qed
    from Cons.prems unf nt have "w' = ?w1 \<or> monitor_loop j p timeout start ?w2 = Some (r, w')"
      by (auto split: sum.splits if_splits)
    with done1 rec1 show ?thesis by blast
  qed
qed


lemma check_times_append:
  "check_times p t (xs @ ys) = check_times p t xs @ check_times p (clock_after p t xs) ys"
  by (induction xs arbitrary: t) auto

lemma after_running_fields:
  "responses w = pre @ rest \<Longrightarrow> responses (after_running j p pre w) = rest"
  "clock (after_running j p pre w) = clock_after p (clock w) pre"
  by (simp_all add: after_running_def)

lemma monitor_job_unfold:
  assumes "py_getitem job_info ''jobId'' = Inr j"
  shows "monitor_job job_info p timeout w =
     (case monitor_loop j p timeout (clock w) w of
        None \<Rightarrow> None
      | Some (Inl e, w1) \<Rightarrow> Some (Inr (False, PNone), w1)
      | Some (Inr r, w1) \<Rightarrow> Some (Inr r, w1))"
proof -
  from assms obtain d where d: "job_info = PDict d"
    by (cases job_info) (auto simp: py_getitem_def)
  show ?thesis
    using assms by (simp add: monitor_job_def d py_get_def time_time_def)
qed

lemma monitor_job_terminal:
  assumes j: "py_getitem job_info ''jobId'' = Inr j" and p: "0 \<le> p"
    and resp: "responses w = pre @ (lat, Inr status) # rest"
    and run: "list_all running_poll pre"
    and chk: "list_all (\<lambda>t. t - clock w \<le> timeout)
                (check_times p (clock w) (pre @ [(lat, Inr status)]))"
  shows "succeeded_status status \<Longrightarrow>
           monitor_job job_info p timeout w
             = Some (Inr (True, status), after_fetch j lat (after_running j p pre w))"
    and "failed_status status \<Longrightarrow>
           monitor_job job_info p timeout w
             = Some (Inr (False, PNone), after_fetch j lat (after_running j p pre w))"
proof -
  let ?w1 = "after_running j p pre w"
  from chk have c1: "list_all (\<lambda>t. t - clock w \<le> timeout) (check_times p (clock w) pre)"
    and c2: "clock_after p (clock w) pre - clock w \<le> timeout"
    by (simp_all add: check_times_append)
  have skip: "monitor_loop j p timeout (clock w) w = monitor_loop j p timeout (clock w) ?w1"
    by (rule loop_skip_running [OF p resp run c1])
  have r1: "responses ?w1 = (lat, Inr status) # rest" by (rule after_running_fields(1) [OF resp])
  have t1: "clock ?w1 - clock w \<le> timeout" using c2 by (simp add: after_running_fields(2))
  show "monitor_job job_info p timeout w
             = Some (Inr (True, status), after_fetch j lat ?w1)" if "succeeded_status status"
    using loop_success_step [OF r1 that t1, of j p] skip
    by (simp add: monitor_job_unfold [OF j])
  show "monitor_job job_info p timeout w
             = Some (Inr (False, PNone), after_fetch j lat ?w1)" if "failed_status status"
    using loop_failure_step [OF r1 that t1, of j p] skip
    by (simp add: monitor_job_unfold [OF j])
qed

lemma monitor_job_timeout:
  assumes j: "py_getitem job_info ''jobId'' = Inr j" and p: "0 \<le> p"
    and resp: "responses w = pre @ rest"
    and run: "list_all running_poll pre"
    and chk: "list_all (\<lambda>t. t - clock w \<le> timeout) (check_times p (clock w) pre)"
    and out: "clock_after p (clock w) pre - clock w > timeout"
  shows "monitor_job job_info p timeout w = Some (Inr (False, PNone), after_running j p pre w)"
proof -
  let ?w1 = "after_running j p pre w"
  have skip: "monitor_loop j p timeout (clock w) w = monitor_loop j p timeout (clock w) ?w1"
    by (rule loop_skip_running [OF p resp run chk])
  have "clock ?w1 - clock w > timeout" using out by (simp add: after_running_fields(2))
  from loop_timeout [OF this, of j p] skip show ?thesis
    by (simp add: monitor_job_unfold [OF j])
qed

lemma monitor_job_success_only:
  assumes j: "py_getitem job_info ''jobId'' = Inr j"
    and res: "monitor_job job_info p timeout w = Some (Inr (b, v), w')"
  shows "(b \<and> (\<exists>pre lat rest. responses w = pre @ (lat, Inr v) # rest
             \<and> list_all running_poll pre \<and> succeeded_status v \<and> responses w' = rest))
         \<or> (\<not> b \<and> v = PNone)"
proof (cases "monitor_loop j p timeout (clock w) w")
  case None
  with res show ?thesis by (simp add: monitor_job_unfold [OF j])
next
  case (Some x)
  obtain a w1 where x: "x = (a, w1)" by (cases x)
  show ?thesis
  proof (cases a)
    case (Inl e)
    with res Some x show ?thesis by (simp add: monitor_job_unfold [OF j])
  next
    case (Inr r)
    with res Some x have "monitor_loop j p timeout (clock w) w = Some (Inr (b, v), w')"
      by (simp add: monitor_job_unfold [OF j])
    from loop_success_only [OF this] show ?thesis by blast
  qed
qed

lemma example_states:
  "job_state_of (example_status ''running'') = Inr ''RUNNING''"
  "job_state_of (example_status ''Running'') = Inr ''RUNNING''"
  "job_state_of (example_status ''completed'') = Inr ''COMPLETED''"
  "job_state_of (example_status ''cancelled'') = Inr ''CANCELLED''"
  by (simp_all add: job_state_of_def example_status_def py_get_def dict_get_def and_then_def
      py_upper_def upper_def upper_char_def char_of_eval)

lemma example_job_id: "py_getitem example_job_info ''jobId'' = Inr (PStr ''job-42'')"
  by (simp add: example_job_info_def py_getitem_def)

text \<open>
  Claim C1: take any sequence of polls that starts with running statuses (any status
  values outside the three terminal groups), with a poll interval that is not
  negative. If the next status is the first terminal one and no timeout check up to
  its fetch fails, the monitor returns \<open>(True, status)\<close> with that status when its state,
  in upper case, is COMPLETED, SUCCESS, SUCCESSFUL or PARTIAL_COMPLETED, and
  \<open>(False, None)\<close> when it is FAILED, ERROR or CANCELLED. If instead the elapsed time
  exceeds the timeout at the check after the running statuses, it returns
  \<open>(False, None)\<close>. Conversely, whenever the monitor returns \<open>(True, v)\<close>, the polls
  are running statuses followed by the status \<open>v\<close>, whose state is one of the four
  success words; and a result that is not a success carries \<open>None\<close>. A running status
  keeps the monitor polling: after its fetch and the sleep the loop goes on.
\<close>

theorem C1_monitor:
  "(py_getitem job_info ''jobId'' = Inr j \<and> 0 \<le> p
      \<and> responses w = pre @ (lat, Inr status) # rest \<and> list_all running_poll pre
      \<and> list_all (\<lambda>t. t - clock w \<le> timeout)
           (check_times p (clock w) (pre @ [(lat, Inr status)]))
    \<longrightarrow> (succeeded_status status
           \<longrightarrow> map_option fst (monitor_job job_info p timeout w) = Some (Inr (True, status)))
        \<and> (failed_status status
           \<longrightarrow> map_option fst (monitor_job job_info p timeout w) = Some (Inr (False, PNone))))
   \<and> (py_getitem job_info ''jobId'' = Inr j \<and> 0 \<le> p
      \<and> responses w = pre @ rest \<and> list_all running_poll pre
      \<and> list_all (\<lambda>t. t - clock w \<le> timeout) (check_times p (clock w) pre)
      \<and> clock_after p (clock w) pre - clock w > timeout
    \<longrightarrow> map_option fst (monitor_job job_info p timeout w) = Some (Inr (False, PNone)))
   \<and> (py_getitem job_info ''jobId'' = Inr j
      \<and> map_option fst (monitor_job job_info p timeout w) = Some (Inr (True, v))
    \<longrightarrow> (\<exists>pre lat rest. responses w = pre @ (lat, Inr v) # rest
           \<and> list_all running_poll pre \<and> succeeded_status v))
   \<and> (py_getitem job_info ''jobId'' = Inr j
      \<and> map_option fst (monitor_job job_info p timeout w) = Some (Inr (False, v))
    \<longrightarrow> v = PNone)
   \<and> (responses w = (lat, Inr status) # rest \<and> running_status status
      \<and> clock w - start \<le> timeout \<and> 0 \<le> p
    \<longrightarrow> monitor_loop j p timeout start w
          = monitor_loop j p timeout start ((after_fetch j lat w)\<lparr>clock := clock w + lat + p\<rparr>))"
proof -
  have 1: "(succeeded_status status
           \<longrightarrow> map_option fst (monitor_job job_info p timeout w) = Some (Inr (True, status)))
        \<and> (failed_status status
           \<longrightarrow> map_option fst (monitor_job job_info p timeout w) = Some (Inr (False, PNone)))"
    if "py_getitem job_info ''jobId'' = Inr j" "0 \<le> p"
      "responses w = pre @ (lat, Inr status) # rest" "list_all running_poll pre"
      "list_all (\<lambda>t. t - clock w \<le> timeout)
           (check_times p (clock w) (pre @ [(lat, Inr status)]))"
    using monitor_job_terminal [OF that] by simp
  have 2: "map_option fst (monitor_job job_info p timeout w) = Some (Inr (False, PNone))"
    if "py_getitem job_info ''jobId'' = Inr j" "0 \<le> p"
      "responses w = pre @ rest" "list_all running_poll pre"
      "list_all (\<lambda>t. t - clock w \<le> timeout) (check_times p (clock w) pre)"
      "clock_after p (clock w) pre - clock w > timeout"
    using monitor_job_timeout [OF that] by simp
  have 3: "\<exists>pre lat rest. responses w = pre @ (lat, Inr v) # rest
           \<and> list_all running_poll pre \<and> succeeded_status v"
    if j: "py_getitem job_info ''jobId'' = Inr j"
      and r: "map_option fst (monitor_job job_info p timeout w) = Some (Inr (True, v))"
  proof -
    from r obtain w' where "monitor_job job_info p timeout w = Some (Inr (True, v), w')"
      by (cases "monitor_job job_info p timeout w") auto
    from monitor_job_success_only [OF j this] show ?thesis by blast
  qed
  have 4: "v = PNone"
    if j: "py_getitem job_info ''jobId'' = Inr j"
      and r: "map_option fst (monitor_job job_info p timeout w) = Some (Inr (False, v))"
  proof -
    from r obtain w' where "monitor_job job_info p timeout w = Some (Inr (False, v), w')"
      by (cases "monitor_job job_info p timeout w") auto
    from monitor_job_success_only [OF j this] show ?thesis by blast
  qed
  have 5: "monitor_loop j p timeout start w
          = monitor_loop j p timeout start ((after_fetch j lat w)\<lparr>clock := clock w + lat + p\<rparr>)"
    if "responses w = (lat, Inr status) # rest" "running_status status"
      "clock w - start \<le> timeout" "0 \<le> p"
    using that by (rule loop_running_step)
  from 1 2 3 4 5 show ?thesis by blast
qed

text \<open>
  The theorem of claim C1 on the example job: success with a long timeout, timeout with a
  short one, and failure on a job that is cancelled.
\<close>

theorem C1_monitor_witness:
  "map_option fst (monitor_job example_job_info 30 3600 example_job_world)
     = Some (Inr (True, example_status ''completed''))
   \<and> map_option fst (monitor_job example_job_info 30 40 example_job_world)
     = Some (Inr (False, PNone))
   \<and> map_option fst (monitor_job example_job_info 30 3600
        (example_job_world\<lparr>responses := [(2, Inr (example_status ''running'')),
                                         (2, Inr (example_status ''cancelled''))]\<rparr>))
     = Some (Inr (False, PNone))"
proof -
  let ?pre = "[(2, Inr (example_status ''running'')), (2, Inr (example_status ''Running''))]"
  let ?rest = "[(2, Inr (example_status ''cancelled''))]"
  have p: "(0::real) \<le> 30" by simp
  have r: "responses example_job_world = ?pre @ (2, Inr (example_status ''completed'')) # ?rest"
    by (simp add: example_job_world_def)
  have run: "list_all running_poll ?pre"
    by (simp add: running_poll_def running_status_def example_states)
  have chk: "list_all (\<lambda>t. t - clock example_job_world \<le> 3600)
      (check_times 30 (clock example_job_world) (?pre @ [(2, Inr (example_status ''completed''))]))"
    by (simp add: example_job_world_def)
  have suc: "succeeded_status (example_status ''completed'')"
    by (simp add: succeeded_status_def example_states)
  from C1_monitor [of example_job_info "PStr ''job-42''" 30 example_job_world ?pre 2
      "example_status ''completed''" ?rest 3600] example_job_id p r run chk suc
  have 1: "map_option fst (monitor_job example_job_info 30 3600 example_job_world)
     = Some (Inr (True, example_status ''completed''))"
    by blast
  have r2: "responses example_job_world
      = ?pre @ [(2, Inr (example_status ''completed'')), (2, Inr (example_status ''cancelled''))]"
    by (simp add: example_job_world_def)
  have chk2: "list_all (\<lambda>t. t - clock example_job_world \<le> 40)
      (check_times 30 (clock example_job_world) ?pre)"
    by (simp add: example_job_world_def)
  have out: "clock_after 30 (clock example_job_world) ?pre - clock example_job_world > 40"
    by (simp add: example_job_world_def)
  from C1_monitor [of example_job_info "PStr ''job-42''" 30 example_job_world ?pre _ _
      "[(2, Inr (example_status ''completed'')), (2, Inr (example_status ''cancelled''))]" 40]
    example_job_id p r2 run chk2 out
  have 2: "map_option fst (monitor_job example_job_info 30 40 example_job_world)
     = Some (Inr (False, PNone))"
    by blast
  let ?w3 = "example_job_world\<lparr>responses := [(2, Inr (example_status ''running'')),
                                         (2, Inr (example_status ''cancelled''))]\<rparr>"
  have r3: "responses ?w3 = [(2, Inr (example_status ''running''))]
              @ (2, Inr (example_status ''cancelled'')) # []"
    by simp
  have run3: "list_all running_poll [(2::real, Inr (example_status ''running''))]"
    by (simp add: running_poll_def running_status_def example_states)
  have chk3: "list_all (\<lambda>t. t - clock ?w3 \<le> 3600)
      (check_times 30 (clock ?w3) ([(2, Inr (example_status ''running''))]
         @ [(2, Inr (example_status ''cancelled''))]))"
    by (simp add: example_job_world_def)
  have fl: "failed_status (example_status ''cancelled'')"
    by (simp add: failed_status_def example_states)
  from C1_monitor [of example_job_info "PStr ''job-42''" 30 ?w3
      "[(2, Inr (example_status ''running''))]" 2 "example_status ''cancelled''" "[]" 3600]
    example_job_id p r3 run3 chk3 fl
  have 3: "map_option fst (monitor_job example_job_info 30 3600 ?w3) = Some (Inr (False, PNone))"
    by blast
  from 1 2 3 show ?thesis by blast
qed

text \<open>
  Claim C4: the loop tests the timeout before anything else: at the top of an iteration
  with the elapsed time above the timeout it ends with the TimeoutError and the world
  unchanged, so without a fetch. Hence every fetch of a run is issued at a clock reading
  whose elapsed time, measured from the monitor's start, is within the timeout. A run of
  the monitor never raises once the job id is read, and a TimeoutError of the loop
  becomes the result \<open>(False, None)\<close>: a run that times out after some running
  statuses has fetched exactly these and returns \<open>(False, None)\<close>.
\<close>

theorem C4_timeout_check:
  "(clock w - start > timeout
    \<longrightarrow> monitor_loop j p timeout start w = Some (Inl TimeoutError, w))
   \<and> (py_getitem job_info ''jobId'' = Inr j \<and> monitor_job job_info p timeout w = Some (r, w')
    \<longrightarrow> (\<exists>v. r = Inr v)
        \<and> (\<exists>new. fetched w' = fetched w @ new
               \<and> list_all (\<lambda>f. fst f - clock w \<le> timeout \<and> snd f = j) new))
   \<and> (py_getitem job_info ''jobId'' = Inr j
      \<and> monitor_loop j p timeout (clock w) w = Some (Inl TimeoutError, w')
    \<longrightarrow> monitor_job job_info p timeout w = Some (Inr (False, PNone), w'))
   \<and> (py_getitem job_info ''jobId'' = Inr j \<and> 0 \<le> p
      \<and> responses w = pre @ rest \<and> list_all running_poll pre
      \<and> list_all (\<lambda>t. t - clock w \<le> timeout) (check_times p (clock w) pre)
      \<and> clock_after p (clock w) pre - clock w > timeout
    \<longrightarrow> monitor_job job_info p timeout w = Some (Inr (False, PNone), after_running j p pre w))"
proof -
  have 1: "monitor_loop j p timeout start w = Some (Inl TimeoutError, w)"
    if "clock w - start > timeout"
    using that by (rule loop_timeout)
  have 2: "(\<exists>v. r = Inr v)
        \<and> (\<exists>new. fetched w' = fetched w @ new
               \<and> list_all (\<lambda>f. fst f - clock w \<le> timeout \<and> snd f = j) new)"
    if j: "py_getitem job_info ''jobId'' = Inr j"
      and m: "monitor_job job_info p timeout w = Some (r, w')"
  proof -
    from m obtain a where l: "monitor_loop j p timeout (clock w) w = Some (a, w')"
      and r: "\<exists>v. r = Inr v"
      by (auto simp: monitor_job_unfold [OF j] split: option.splits sum.splits prod.splits)
    from loop_fetch_times [OF l] r show ?thesis by blast
  qed
  have 3: "monitor_job job_info p timeout w = Some (Inr (False, PNone), w')"
    if "py_getitem job_info ''jobId'' = Inr j"
      "monitor_loop j p timeout (clock w) w = Some (Inl TimeoutError, w')"
    using that by (simp add: monitor_job_unfold)
  have 4: "monitor_job job_info p timeout w = Some (Inr (False, PNone), after_running j p pre w)"
    if "py_getitem job_info ''jobId'' = Inr j" "0 \<le> p"
      "responses w = pre @ rest" "list_all running_poll pre"
      "list_all (\<lambda>t. t - clock w \<le> timeout) (check_times p (clock w) pre)"
      "clock_after p (clock w) pre - clock w > timeout"
    using that by (rule monitor_job_timeout)
  from 1 2 3 4 show ?thesis by blast
qed

text \<open>
  The theorem of claim C4 on the example job with poll interval 30 and timeout 40: two
  fetches, at 1000 and 1032, and none at 1064.
\<close>

theorem C4_timeout_check_witness:
  "monitor_job example_job_info 30 40 example_job_world
     = Some (Inr (False, PNone),
             \<lparr>clock = 1064,
              responses = [(2, Inr (example_status ''completed'')),
                           (2, Inr (example_status ''cancelled''))],
              fetched = [(1000, PStr ''job-42''), (1032, PStr ''job-42'')]\<rparr>)
   \<and> monitor_loop (PStr ''job-42'') 30 40 900 example_job_world
     = Some (Inl TimeoutError, example_job_world)"
proof -
  let ?pre = "[(2, Inr (example_status ''running'')), (2, Inr (example_status ''Running''))]"
  let ?rest = "[(2, Inr (example_status ''completed'')), (2, Inr (example_status ''cancelled''))]"
  have p: "(0::real) \<le> 30" by simp
  have r: "responses example_job_world = ?pre @ ?rest"
    by (simp add: example_job_world_def)
  have run: "list_all running_poll ?pre"
    by (simp add: running_poll_def running_status_def example_states)
  have chk: "list_all (\<lambda>t. t - clock example_job_world \<le> 40)
      (check_times 30 (clock example_job_world) ?pre)"
    by (simp add: example_job_world_def)
  have out: "clock_after 30 (clock example_job_world) ?pre - clock example_job_world > 40"
    by (simp add: example_job_world_def)
  have late: "clock example_job_world - 900 > 40" by (simp add: example_job_world_def)
  note inst = C4_timeout_check [where w = example_job_world and start = 900 and timeout = 40
      and j = "PStr ''job-42''" and p = 30 and job_info = example_job_info
      and pre = ?pre and rest = ?rest]
  from inst example_job_id p r run chk out
  have "monitor_job example_job_info 30 40 example_job_world
          = Some (Inr (False, PNone), after_running (PStr ''job-42'') 30 ?pre example_job_world)"
    by blast
  then have 1: "monitor_job example_job_info 30 40 example_job_world
     = Some (Inr (False, PNone),
             \<lparr>clock = 1064,
              responses = [(2, Inr (example_status ''completed'')),
                           (2, Inr (example_status ''cancelled''))],
              fetched = [(1000, PStr ''job-42''), (1032, PStr ''job-42'')]\<rparr>)"
    by (simp add: after_running_def example_job_world_def)
  from inst late
  have 2: "monitor_loop (PStr ''job-42'') 30 40 900 example_job_world
     = Some (Inl TimeoutError, example_job_world)"
    by blast
  from 1 2 show ?thesis by blast
qed

text \<open>
  Claim C8: on the statuses RUNNING, RUNNING, COMPLETED with poll interval 0 and a timeout
  that the first two fetches do not exceed, the monitor returns \<open>(True, status)\<close> with
  the third status after exactly three fetches; what the service would answer to a
  fourth fetch is still unread.
\<close>

theorem C8_three_polls:
  assumes "py_getitem job_info ''jobId'' = Inr j"
    and "responses w = (l1, Inr s1) # (l2, Inr s2) # (l3, Inr s3) # rest"
    and "job_state_of s1 = Inr ''RUNNING''" and "job_state_of s2 = Inr ''RUNNING''"
    and "job_state_of s3 = Inr ''COMPLETED''"
    and "0 \<le> timeout" and "l1 \<le> timeout" and "l1 + l2 \<le> timeout"
  shows "monitor_job job_info 0 timeout w
           = Some (Inr (True, s3),
                   w\<lparr>clock := clock w + l1 + l2 + l3, responses := rest,
                     fetched := fetched w @ [(clock w, j), (clock w + l1, j),
                                             (clock w + l1 + l2, j)]\<rparr>)"
proof -
  let ?pre = "[(l1, Inr s1), (l2, Inr s2)]"
  have resp: "responses w = ?pre @ (l3, Inr s3) # rest" using assms(2) by simp
  have run: "list_all running_poll ?pre"
    using assms(3,4) by (simp add: running_poll_def running_status_def)
  have chk: "list_all (\<lambda>t. t - clock w \<le> timeout)
               (check_times 0 (clock w) (?pre @ [(l3, Inr s3)]))"
    using assms(6-8) by simp
  have suc: "succeeded_status s3" using assms(5) by (simp add: succeeded_status_def)
  have "monitor_job job_info 0 timeout w
          = Some (Inr (True, s3), after_fetch j l3 (after_running j 0 ?pre w))"
    by (rule monitor_job_terminal(1) [OF assms(1) _ resp run chk suc]) simp
  also have "after_fetch j l3 (after_running j 0 ?pre w)
      = w\<lparr>clock := clock w + l1 + l2 + l3, responses := rest,
          fetched := fetched w @ [(clock w, j), (clock w + l1, j), (clock w + l1 + l2, j)]\<rparr>"
    by (simp add: after_fetch_def after_running_def assms(2))
  finally show ?thesis .
qed


text \<open>The theorem of claim C8 on the example job with timeout 60.\<close>

theorem C8_three_polls_witness:
  "monitor_job example_job_info 0 60 example_job_world
     = Some (Inr (True, example_status ''completed''),
             \<lparr>clock = 1006, responses = [(2, Inr (example_status ''cancelled''))],
              fetched = [(1000, PStr ''job-42''), (1002, PStr ''job-42''),
                         (1004, PStr ''job-42'')]\<rparr>)"
proof -
  have r: "responses example_job_world
      = (2, Inr (example_status ''running'')) # (2, Inr (example_status ''Running''))
        # (2, Inr (example_status ''completed'')) # [(2, Inr (example_status ''cancelled''))]"
    by (simp add: example_job_world_def)
  from C8_three_polls [OF example_job_id r example_states(1) example_states(2) example_states(3),
      of 60]
  show ?thesis by (simp add: example_job_world_def)
qed

end
